theory Spec2Isabelle
  imports Complex_Main "HOL-Library.Product_Lexorder"
begin

section \<open>Active learning loop (baselines/jft/active\_learning.py)\<close>

subsection \<open>Floating-point values and Python errors\<close>

text \<open>
  Scores and accuracies are floats. Only comparison, negation and the special values
  are used by the selection engine and the fine-tune loop, and those are exact in
  IEEE arithmetic, so a float is a real number or one of the special values.
  Rounded operations (subtraction, sums, softmax) are never computed here: they are
  parameters of the functions that use them.
\<close>

datatype pyfloat = NInf | Fin real | PInf | NaN

datatype error =
  ValueError | IndexError | UnboundLocalError | IllegalFlagValueError | RuntimeError

text \<open>\<^verbatim>\<open>NINF_SCORE = float("-inf")\<close>\<close>

definition NINF_SCORE :: pyfloat where
  "NINF_SCORE = NInf"

text \<open>The order numpy sorts floats in: \<open>-inf\<close>, the finite values, \<open>+inf\<close>, then NaN.\<close>

fun np_key :: "pyfloat \<Rightarrow> nat \<times> real" where
  "np_key NInf = (0, 0)"
| "np_key (Fin r) = (1, r)"
| "np_key PInf = (2, 0)"
| "np_key NaN = (3, 0)"

fun fneg :: "pyfloat \<Rightarrow> pyfloat" where
  "fneg NInf = PInf"
| "fneg (Fin r) = Fin (- r)"
| "fneg PInf = NInf"
| "fneg NaN = NaN"

text \<open>IEEE comparisons: every comparison with NaN is false.\<close>

definition fgt :: "pyfloat \<Rightarrow> pyfloat \<Rightarrow> bool" where
  "fgt a b \<longleftrightarrow> a \<noteq> NaN \<and> b \<noteq> NaN \<and> np_key b < np_key a"

definition fge :: "pyfloat \<Rightarrow> pyfloat \<Rightarrow> bool" where
  "fge a b \<longleftrightarrow> a \<noteq> NaN \<and> b \<noteq> NaN \<and> np_key b \<le> np_key a"

definition fle :: "pyfloat \<Rightarrow> pyfloat \<Rightarrow> bool" where
  "fle a b \<longleftrightarrow> fge b a"

definition flt :: "pyfloat \<Rightarrow> pyfloat \<Rightarrow> bool" where
  "flt a b \<longleftrightarrow> fgt b a"

subsection \<open>Selection engine: \<^verbatim>\<open>select_acquisition_batch_indices\<close>\<close>

text \<open>\<^verbatim>\<open>ids_list.index(x)\<close>: the first position of \<open>x\<close>; ValueError (here \<open>None\<close>) when absent.\<close>

fun list_index :: "'a list \<Rightarrow> 'a \<Rightarrow> nat option" where
  "list_index [] x = None"
| "list_index (y # ys) x = (if y = x then Some 0 else map_option Suc (list_index ys x))"

text \<open>
  \<^verbatim>\<open>for ignored_id in ignored_ids: scores[ids_list.index(ignored_id)] = NINF_SCORE\<close>.
  The list \<open>ignored_ids\<close> is the order in which Python iterates over the collection.
\<close>

fun ignore_ids :: "int list \<Rightarrow> int list \<Rightarrow> pyfloat list \<Rightarrow> error + pyfloat list" where
  "ignore_ids ids_list [] scores = Inr scores"
| "ignore_ids ids_list (ignored_id # rest) scores =
     (case list_index ids_list ignored_id of
        None \<Rightarrow> Inl ValueError
      | Some i \<Rightarrow>
          if i < length scores then ignore_ids ids_list rest (scores[i := NINF_SCORE])
          else Inl IndexError)"

text \<open>
  \<^verbatim>\<open>np.argpartition(a, kth)\<close>. numpy adds the length to a negative \<open>kth\<close> and raises
  ValueError when the result is out of bounds of a non-empty array. The selection
  algorithm itself (introselect) is the parameter \<open>sel\<close>; what numpy documents of its
  result is \<open>np_argpartition_contract\<close>.
\<close>

type_synonym partition_fn = "pyfloat list \<Rightarrow> nat \<Rightarrow> nat list"

definition np_argpartition :: "partition_fn \<Rightarrow> pyfloat list \<Rightarrow> int \<Rightarrow> error + nat list" where
  "np_argpartition sel a kth =
     (let n = int (length a); k = (if kth < 0 then kth + n else kth)
      in if a = [] then Inr []
         else if k < 0 \<or> n \<le> k then Inl ValueError
         else Inr (sel a (nat k)))"

definition argpartition_ok :: "pyfloat list \<Rightarrow> nat \<Rightarrow> nat list \<Rightarrow> bool" where
  "argpartition_ok a k p \<longleftrightarrow>
     distinct p \<and> set p = {0..<length a}
     \<and> (\<forall>i<k. np_key (a ! (p ! i)) \<le> np_key (a ! (p ! k)))
     \<and> (\<forall>i. k < i \<and> i < length a \<longrightarrow> np_key (a ! (p ! k)) \<le> np_key (a ! (p ! i)))"

definition np_argpartition_contract :: "partition_fn \<Rightarrow> bool" where
  "np_argpartition_contract sel \<longleftrightarrow> (\<forall>a k. k < length a \<longrightarrow> argpartition_ok a k (sel a k))"

text \<open>A reference implementation of the contract: a stable sort of the indices.\<close>

definition argsort_partition :: partition_fn where
  "argsort_partition a k = sort_key (\<lambda>i. np_key (a ! i)) [0..<length a]"

text \<open>The Python slice \<^verbatim>\<open>xs[:k]\<close>; a negative \<open>k\<close> counts from the end.\<close>

definition py_slice_to :: "'a list \<Rightarrow> int \<Rightarrow> 'a list" where
  "py_slice_to xs k = (if 0 \<le> k then take (nat k) xs else take (nat (int (length xs) + k)) xs)"

text \<open>
  The function itself. \<^verbatim>\<open>f_ent.min()\<close> in the statistics line raises ValueError on an
  empty array; the fancy indexing \<^verbatim>\<open>ids[top_scorers]\<close> raises IndexError out of range.
\<close>

definition select_acquisition_batch_indices ::
  "partition_fn \<Rightarrow> int \<Rightarrow> pyfloat list \<Rightarrow> int list \<Rightarrow> int list \<Rightarrow> error + (int list \<times> pyfloat list)"
where
  "select_acquisition_batch_indices sel acquisition_batch_size scores ids ignored_ids =
     (case ignore_ids ids ignored_ids scores of
        Inl e \<Rightarrow> Inl e
      | Inr scores' \<Rightarrow>
          let f_ent = filter (\<lambda>s. fgt s NINF_SCORE) scores' in
          if f_ent = [] then Inl ValueError
          else
            (case np_argpartition sel (map fneg scores') acquisition_batch_size of
               Inl e \<Rightarrow> Inl e
             | Inr partitioned_scorers \<Rightarrow>
                 let top_scorers = py_slice_to partitioned_scorers acquisition_batch_size in
                 if \<exists>i\<in>set top_scorers. length ids \<le> i \<or> length scores' \<le> i then Inl IndexError
                 else Inr (map (\<lambda>i. ids ! i) top_scorers, map (\<lambda>i. scores' ! i) top_scorers)))"

text \<open>
  What the loop over \<open>ignored_ids\<close> computes when it does not fail: the score at the
  first position of every ignored id becomes \<open>NINF_SCORE\<close>.
\<close>

definition forced_scores :: "int list \<Rightarrow> int set \<Rightarrow> pyfloat list \<Rightarrow> pyfloat list" where
  "forced_scores ids S scores =
     map (\<lambda>j. if ids ! j \<in> S \<and> (\<forall>i<j. ids ! i \<noteq> ids ! j) then NINF_SCORE else scores ! j)
       [0..<length scores]"

subsection \<open>Batch inference runner: \<^verbatim>\<open>get_ids_logits_masks\<close>\<close>

text \<open>
  A batch of the input pipeline is a dictionary of aligned arrays \<^verbatim>\<open>id\<close>, \<^verbatim>\<open>image\<close>,
  \<^verbatim>\<open>labels\<close>, \<^verbatim>\<open>mask\<close>: a list of examples. A dataset is the finite list of its batches.
\<close>

record 'img example =
  ex_id :: int
  ex_image :: 'img
  ex_labels :: "pyfloat list"
  ex_mask :: bool

type_synonym 'img batch = "'img example list"
type_synonym 'img dataset = "'img batch list"

text \<open>
  \<open>fwd opt pre_logits image\<close> is \<^verbatim>\<open>compute_batch_outputs\<close> on one example: the logits of
  the model with parameters \<open>opt\<close>, or its pre-logits. The arrays are flattened, one
  entry per example; \<^verbatim>\<open>jnp.concatenate\<close> of no batch at all raises ValueError.
\<close>

definition get_ids_logits_masks ::
  "('opt \<Rightarrow> bool \<Rightarrow> 'img \<Rightarrow> pyfloat list) \<Rightarrow> 'opt \<Rightarrow> 'img dataset \<Rightarrow> bool
     \<Rightarrow> error + (int list \<times> pyfloat list list \<times> pyfloat list list \<times> bool list)"
where
  "get_ids_logits_masks fwd opt_repl ds pre_logits =
     (if ds = [] then Inl ValueError
      else Inr (concat (map (map ex_id) ds),
                concat (map (map (\<lambda>e. fwd opt_repl pre_logits (ex_image e))) ds),
                concat (map (map ex_labels) ds),
                concat (map (map ex_mask) ds)))"

subsection \<open>Scoring functions\<close>

text \<open>
  The rounded floating-point operations of jax and numpy that the scoring functions
  use. \<open>softmax\<close> and \<open>log_softmax\<close> act on one row of logits (the last axis).
\<close>

record float_lib =
  softmax :: "pyfloat list \<Rightarrow> pyfloat list"
  log_softmax :: "pyfloat list \<Rightarrow> pyfloat list"
  fmul :: "pyfloat \<Rightarrow> pyfloat \<Rightarrow> pyfloat"
  fsub :: "pyfloat \<Rightarrow> pyfloat \<Rightarrow> pyfloat"
  fdiv :: "pyfloat \<Rightarrow> pyfloat \<Rightarrow> pyfloat"
  fsum :: "pyfloat list \<Rightarrow> pyfloat"

text \<open>
  What IEEE arithmetic and the softmax guarantee of them: \<open>x - x\<close> is zero for a finite
  \<open>x\<close>, \<open>x - y\<close> is not negative when \<open>y \<le> x\<close>, NaN propagates through a subtraction,
  and a softmax probability is a finite number or NaN.
\<close>

definition ieee_float_lib :: "float_lib \<Rightarrow> bool" where
  "ieee_float_lib L \<longleftrightarrow>
     (\<forall>x. fsub L (Fin x) (Fin x) = Fin 0)
     \<and> (\<forall>x y. y \<le> x \<longrightarrow> fge (fsub L (Fin x) (Fin y)) (Fin 0))
     \<and> (\<forall>y. fsub L NaN y = NaN)
     \<and> (\<forall>row. \<forall>p\<in>set (softmax L row). p = NaN \<or> (\<exists>x. p = Fin x))"

definition isnan :: "pyfloat \<Rightarrow> bool" where
  "isnan x \<longleftrightarrow> x = NaN"

text \<open>
  \<^verbatim>\<open>jnp.where(masks, x, c)\<close> on flattened arrays: elementwise on equal shapes, an array
  of one element is broadcast, other shapes are rejected with ValueError.
\<close>

definition jnp_where :: "bool list \<Rightarrow> pyfloat list \<Rightarrow> pyfloat \<Rightarrow> error + pyfloat list" where
  "jnp_where masks xs c =
     (if length masks = length xs then Inr (map2 (\<lambda>m x. if m then x else c) masks xs)
      else if length masks = 1 then Inr (map (\<lambda>x. if masks ! 0 then x else c) xs)
      else if length xs = 1 then Inr (map (\<lambda>m. if m then xs ! 0 else c) masks)
      else Inl ValueError)"

text \<open>The first error of a list of results, or all the values.\<close>

fun collect :: "(error + 'a) list \<Rightarrow> error + 'a list" where
  "collect [] = Inr []"
| "collect (Inl e # rs) = Inl e"
| "collect (Inr x # rs) = (case collect rs of Inl e \<Rightarrow> Inl e | Inr xs \<Rightarrow> Inr (x # xs))"

text \<open>
  \<^verbatim>\<open>get_entropy_scores\<close>. One row:
  \<^verbatim>\<open>weighted_nats = -probs * log_probs\<close>, NaN terms replaced by 0, then the sum.
\<close>

definition entropy_of_row :: "float_lib \<Rightarrow> pyfloat list \<Rightarrow> pyfloat" where
  "entropy_of_row L row =
     (let log_probs = log_softmax L row;
          probs = softmax L row;
          weighted_nats = map2 (\<lambda>p lp. fmul L (fneg p) lp) probs log_probs;
          weighted_nats = map (\<lambda>w. if isnan w then Fin 0 else w) weighted_nats
      in fsum L weighted_nats)"

definition get_entropy_scores ::
  "float_lib \<Rightarrow> pyfloat list list \<Rightarrow> bool list \<Rightarrow> error + pyfloat list" where
  "get_entropy_scores L logits masks =
     (let entropy = map (entropy_of_row L) logits
      in jnp_where masks entropy NINF_SCORE)"

text \<open>
  \<^verbatim>\<open>jnp.argsort\<close> along a row (NaN last), and jax indexing with a static integer: a
  negative index counts from the end, an index out of bounds is clamped, an axis of
  size 0 cannot be indexed.
\<close>

definition jnp_argsort :: "pyfloat list \<Rightarrow> nat list" where
  "jnp_argsort row = sort_key (\<lambda>i. np_key (row ! i)) [0..<length row]"

definition jnp_index :: "'a list \<Rightarrow> int \<Rightarrow> error + 'a" where
  "jnp_index xs i =
     (if xs = [] then Inl IndexError
      else let n = int (length xs); j = (if i < 0 then i + n else i)
           in Inr (xs ! nat (max 0 (min (n - 1) j))))"

text \<open>
  \<^verbatim>\<open>get_margin_scores\<close>. One row: the sorted probabilities, the last minus the one
  before it, negated.
\<close>

definition margin_of_row :: "float_lib \<Rightarrow> pyfloat list \<Rightarrow> error + pyfloat" where
  "margin_of_row L row =
     (let probs = softmax L row;
          sorted_probs = map (\<lambda>i. probs ! i) (jnp_argsort probs)
      in case jnp_index sorted_probs (- 1) of
           Inl e \<Rightarrow> Inl e
         | Inr top1 \<Rightarrow>
             (case jnp_index sorted_probs (- 2) of
                Inl e \<Rightarrow> Inl e
              | Inr top2 \<Rightarrow> Inr (fneg (fsub L top1 top2))))"

definition get_margin_scores ::
  "float_lib \<Rightarrow> pyfloat list list \<Rightarrow> bool list \<Rightarrow> error + pyfloat list" where
  "get_margin_scores L logits masks =
     (case collect (map (margin_of_row L) logits) of
        Inl e \<Rightarrow> Inl e
      | Inr margin_scores \<Rightarrow> jnp_where masks margin_scores NINF_SCORE)"

text \<open>
  \<^verbatim>\<open>get_uniform_scores\<close>: \<open>uniform rng i\<close> is the \<open>i\<close>-th draw of
  \<^verbatim>\<open>jax.random.uniform(key=rng, shape=masks.shape)\<close>.
\<close>

definition get_uniform_scores :: "('key \<Rightarrow> nat \<Rightarrow> pyfloat) \<Rightarrow> bool list \<Rightarrow> 'key \<Rightarrow> pyfloat list" where
  "get_uniform_scores uniform masks rng =
     (let uniform_scores = map (uniform rng) [0..<length masks]
      in map2 (\<lambda>m u. if m then u else NINF_SCORE) masks uniform_scores)"

text \<open>\<^verbatim>\<open>a.max()\<close> of a non-empty numpy array: NaN if any entry is NaN.\<close>

definition np_max :: "pyfloat list \<Rightarrow> pyfloat" where
  "np_max xs = (if NaN \<in> set xs then NaN
                else fold (\<lambda>x m. if np_key m < np_key x then x else m) (tl xs) (hd xs))"

text \<open>
  \<^verbatim>\<open>get_density_scores\<close>. \<open>lda_scores\<close> stands for the estimator of \<^verbatim>\<open>ood_utils\<close>
  (\<^verbatim>\<open>compute_mean_and_cov\<close>, \<^verbatim>\<open>compute_mahalanobis_distance\<close>) followed by
  \<^verbatim>\<open>logsumexp(-dists / 2)\<close>: from the features and label rows of the valid training
  examples and the pool features to one raw score per pool example. A boolean index
  of another length raises IndexError, the maximum of no score at all ValueError.
\<close>

definition get_density_scores ::
  "float_lib \<Rightarrow> (pyfloat list list \<Rightarrow> pyfloat list list \<Rightarrow> pyfloat list list \<Rightarrow> pyfloat list)
     \<Rightarrow> ('opt \<Rightarrow> bool \<Rightarrow> 'img \<Rightarrow> pyfloat list) \<Rightarrow> 'opt \<Rightarrow> 'img dataset
     \<Rightarrow> pyfloat list list \<Rightarrow> bool list \<Rightarrow> error + pyfloat list"
where
  "get_density_scores L lda_scores fwd opt_repl train_ds pool_pre_logits pool_masks =
     (case get_ids_logits_masks fwd opt_repl train_ds True of
        Inl e \<Rightarrow> Inl e
      | Inr (_, train_pre_logits, train_labels, train_masks) \<Rightarrow>
          let train_pre_logits = map fst (filter snd (zip train_pre_logits train_masks));
              train_labels = map fst (filter snd (zip train_labels train_masks));
              scores = lda_scores train_pre_logits train_labels pool_pre_logits
          in if length pool_masks \<noteq> length scores then Inl IndexError
             else let valid = map snd (filter fst (zip pool_masks scores))
                  in if valid = [] then Inl ValueError
                     else Inr (map2 (\<lambda>m s. if m then fsub L (np_max valid) s else NINF_SCORE)
                                 pool_masks scores))"

text \<open>
  Exact arithmetic as an instance of the float operations: no rounding, the special
  values as IEEE prescribes.
\<close>

fun exact_sub :: "pyfloat \<Rightarrow> pyfloat \<Rightarrow> pyfloat" where
  "exact_sub NaN _ = NaN"
| "exact_sub _ NaN = NaN"
| "exact_sub (Fin x) (Fin y) = Fin (x - y)"
| "exact_sub PInf PInf = NaN"
| "exact_sub NInf NInf = NaN"
| "exact_sub PInf _ = PInf"
| "exact_sub NInf _ = NInf"
| "exact_sub (Fin x) PInf = NInf"
| "exact_sub (Fin x) NInf = PInf"

fun exact_mul :: "pyfloat \<Rightarrow> pyfloat \<Rightarrow> pyfloat" where
  "exact_mul (Fin x) (Fin y) = Fin (x * y)"
| "exact_mul NaN _ = NaN"
| "exact_mul _ NaN = NaN"
| "exact_mul (Fin x) PInf = (if x = 0 then NaN else if 0 < x then PInf else NInf)"
| "exact_mul (Fin x) NInf = (if x = 0 then NaN else if 0 < x then NInf else PInf)"
| "exact_mul PInf (Fin y) = (if y = 0 then NaN else if 0 < y then PInf else NInf)"
| "exact_mul NInf (Fin y) = (if y = 0 then NaN else if 0 < y then NInf else PInf)"
| "exact_mul PInf PInf = PInf"
| "exact_mul NInf NInf = PInf"
| "exact_mul PInf NInf = NInf"
| "exact_mul NInf PInf = NInf"

fun exact_div :: "pyfloat \<Rightarrow> pyfloat \<Rightarrow> pyfloat" where
  "exact_div (Fin x) (Fin y) =
     (if y \<noteq> 0 then Fin (x / y) else if x = 0 then NaN else if 0 < x then PInf else NInf)"
| "exact_div NaN _ = NaN"
| "exact_div _ NaN = NaN"
| "exact_div (Fin x) _ = Fin 0"
| "exact_div PInf (Fin y) = (if 0 \<le> y then PInf else NInf)"
| "exact_div NInf (Fin y) = (if 0 \<le> y then NInf else PInf)"
| "exact_div _ _ = NaN"

fun exact_add :: "pyfloat \<Rightarrow> pyfloat \<Rightarrow> pyfloat" where
  "exact_add a b = exact_sub a (fneg b)"

fun exp_of :: "pyfloat \<Rightarrow> real" where
  "exp_of (Fin x) = exp x"
| "exp_of _ = 0"

fun is_fin :: "pyfloat \<Rightarrow> bool" where
  "is_fin (Fin x) = True"
| "is_fin _ = False"

text \<open>
  The softmax of a row is a distribution when no logit is NaN or \<open>+inf\<close> and some logit
  is finite; otherwise every entry is NaN.
\<close>

definition softmax_defined :: "pyfloat list \<Rightarrow> bool" where
  "softmax_defined row \<longleftrightarrow>
     (\<forall>x\<in>set row. x = NInf \<or> is_fin x) \<and> (\<exists>x\<in>set row. is_fin x)"

definition exact_softmax :: "pyfloat list \<Rightarrow> pyfloat list" where
  "exact_softmax row =
     (if softmax_defined row
      then map (\<lambda>x. Fin (exp_of x / sum_list (map exp_of row))) row
      else map (\<lambda>_. NaN) row)"

definition exact_log_softmax :: "pyfloat list \<Rightarrow> pyfloat list" where
  "exact_log_softmax row =
     (if softmax_defined row
      then map (\<lambda>x. exact_sub x (Fin (ln (sum_list (map exp_of row))))) row
      else map (\<lambda>_. NaN) row)"

definition exact_lib :: float_lib where
  "exact_lib = \<lparr> softmax = exact_softmax, log_softmax = exact_log_softmax,
                 fmul = exact_mul, fsub = exact_sub, fdiv = exact_div,
                 fsum = (\<lambda>xs. fold (\<lambda>x s. exact_add s x) xs (Fin 0)) \<rparr>"



subsection \<open>Fine-tune loop: \<^verbatim>\<open>get_accuracy\<close> and \<^verbatim>\<open>finetune\<close>\<close>

text \<open>
  \<open>evaluation_fn opt batch\<close> gives the number of correct predictions and the number of
  examples seen in one batch (the first and third component of the source's result).
\<close>

definition get_accuracy ::
  "float_lib \<Rightarrow> ('opt \<Rightarrow> 'img batch \<Rightarrow> pyfloat \<times> pyfloat) \<Rightarrow> 'opt \<Rightarrow> 'img dataset \<Rightarrow> pyfloat" where
  "get_accuracy L evaluation_fn opt_repl ds =
     (let ncorrect = map (\<lambda>batch. fst (evaluation_fn opt_repl batch)) ds;
          nseen = map (\<lambda>batch. snd (evaluation_fn opt_repl batch)) ds
      in fdiv L (fsum L ncorrect) (fsum L nseen))"

text \<open>The dictionary \<^verbatim>\<open>info\<close> that \<^verbatim>\<open>finetune\<close> returns.\<close>

record finetune_info =
  best_val_accuracy :: pyfloat
  best_step :: int
  train_accuracies :: "(int \<times> pyfloat) list"
  val_accuracies :: "(int \<times> pyfloat) list"

text \<open>
  The local variables of the loop. \<^verbatim>\<open>best_opt_repl\<close> is not assigned before the
  loop: \<open>None\<close> until the first snapshot.
\<close>

record ('opt, 'key) finetune_state =
  st_opt_repl :: 'opt
  st_rngs_loop :: 'key
  st_best_opt_accuracy :: pyfloat
  st_best_step :: int
  st_best_opt_repl :: "'opt option"
  st_train_accuracies :: "(int \<times> pyfloat) list"
  st_val_accuracies :: "(int \<times> pyfloat) list"

text \<open>
  The body of the \<^verbatim>\<open>for\<close> loop over \<^verbatim>\<open>zip(trange(1, total_steps + 1), iter_ds, lr_iter)\<close>;
  \<^verbatim>\<open>break\<close> returns the state without looking at the remaining steps.
  \<open>update_fn opt lr batch rng\<close> gives the new optimizer and the new rng.
\<close>

fun finetune_loop ::
  "float_lib \<Rightarrow> ('opt \<Rightarrow> 'lr \<Rightarrow> 'img batch \<Rightarrow> 'key \<Rightarrow> 'opt \<times> 'key)
     \<Rightarrow> ('opt \<Rightarrow> 'img batch \<Rightarrow> pyfloat \<times> pyfloat) \<Rightarrow> 'img dataset \<Rightarrow> 'img dataset \<Rightarrow> int
     \<Rightarrow> (int \<times> 'img batch \<times> 'lr) list \<Rightarrow> ('opt, 'key) finetune_state \<Rightarrow> ('opt, 'key) finetune_state"
where
  "finetune_loop L update_fn evaluation_fn train_eval_ds val_ds early_stopping_patience [] s = s"
| "finetune_loop L update_fn evaluation_fn train_eval_ds val_ds early_stopping_patience
     ((current_step, train_batch, lr_repl) # rest) s =
     (let (opt_repl, rngs_loop) = update_fn (st_opt_repl s) lr_repl train_batch (st_rngs_loop s);
          s = s\<lparr>st_opt_repl := opt_repl, st_rngs_loop := rngs_loop\<rparr>
      in if current_step mod 5 = 0 then
           let train_accuracy = get_accuracy L evaluation_fn opt_repl train_eval_ds;
               val_accuracy = get_accuracy L evaluation_fn opt_repl val_ds;
               s = s\<lparr>st_train_accuracies := st_train_accuracies s @ [(current_step, train_accuracy)],
                      st_val_accuracies := st_val_accuracies s @ [(current_step, val_accuracy)]\<rparr>
           in if fge val_accuracy (st_best_opt_accuracy s) then
                finetune_loop L update_fn evaluation_fn train_eval_ds val_ds early_stopping_patience rest
                  (s\<lparr>st_best_step := current_step, st_best_opt_accuracy := val_accuracy,
                      st_best_opt_repl := Some opt_repl\<rparr>)
              else if early_stopping_patience \<le> current_step - st_best_step s then s
              else finetune_loop L update_fn evaluation_fn train_eval_ds val_ds early_stopping_patience rest s
         else finetune_loop L update_fn evaluation_fn train_eval_ds val_ds early_stopping_patience rest s)"

text \<open>The state in which the loop of \<^verbatim>\<open>finetune\<close> ends.\<close>

definition finetune_run ::
  "float_lib \<Rightarrow> ('opt \<Rightarrow> 'lr \<Rightarrow> 'img batch \<Rightarrow> 'key \<Rightarrow> 'opt \<times> 'key) \<Rightarrow> 'opt \<Rightarrow> (int \<Rightarrow> 'lr)
     \<Rightarrow> 'img dataset \<Rightarrow> 'key \<Rightarrow> int \<Rightarrow> 'img dataset \<Rightarrow> 'img dataset
     \<Rightarrow> ('opt \<Rightarrow> 'img batch \<Rightarrow> pyfloat \<times> pyfloat) \<Rightarrow> int \<Rightarrow> ('opt, 'key) finetune_state"
where
  "finetune_run L update_fn opt_repl lr_fn ds rngs_loop total_steps train_eval_ds val_ds
       evaluation_fn early_stopping_patience =
     finetune_loop L update_fn evaluation_fn train_eval_ds val_ds early_stopping_patience
       (zip [1..total_steps] (zip ds (map lr_fn [0..total_steps - 1])))
       \<lparr>st_opt_repl = opt_repl, st_rngs_loop = rngs_loop, st_best_opt_accuracy = Fin (- 1),
        st_best_step = 1, st_best_opt_repl = None, st_train_accuracies = [], st_val_accuracies = []\<rparr>"

text \<open>
  \<^verbatim>\<open>finetune\<close>: the final \<^verbatim>\<open>return best_opt_repl, rngs_loop, info\<close> raises
  UnboundLocalError when no snapshot was taken.
\<close>

definition finetune ::
  "float_lib \<Rightarrow> ('opt \<Rightarrow> 'lr \<Rightarrow> 'img batch \<Rightarrow> 'key \<Rightarrow> 'opt \<times> 'key) \<Rightarrow> 'opt \<Rightarrow> (int \<Rightarrow> 'lr)
     \<Rightarrow> 'img dataset \<Rightarrow> 'key \<Rightarrow> int \<Rightarrow> 'img dataset \<Rightarrow> 'img dataset
     \<Rightarrow> ('opt \<Rightarrow> 'img batch \<Rightarrow> pyfloat \<times> pyfloat) \<Rightarrow> int
     \<Rightarrow> error + ('opt \<times> 'key \<times> finetune_info)"
where
  "finetune L update_fn opt_repl lr_fn ds rngs_loop total_steps train_eval_ds val_ds
       evaluation_fn early_stopping_patience =
     (let s = finetune_run L update_fn opt_repl lr_fn ds rngs_loop total_steps train_eval_ds val_ds
                evaluation_fn early_stopping_patience
      in case st_best_opt_repl s of
           None \<Rightarrow> Inl UnboundLocalError
         | Some best_opt_repl \<Rightarrow>
             Inr (best_opt_repl, st_rngs_loop s,
                  \<lparr>best_val_accuracy = st_best_opt_accuracy s, best_step = st_best_step s,
                   train_accuracies = st_train_accuracies s, val_accuracies = st_val_accuracies s\<rparr>))"

text \<open>The optimizer and the rng after the first \<open>n\<close> update steps of a run.\<close>

fun updates ::
  "('opt \<Rightarrow> 'lr \<Rightarrow> 'img batch \<Rightarrow> 'key \<Rightarrow> 'opt \<times> 'key) \<Rightarrow> (int \<Rightarrow> 'lr) \<Rightarrow> 'img dataset
     \<Rightarrow> 'opt \<Rightarrow> 'key \<Rightarrow> nat \<Rightarrow> 'opt \<times> 'key"
where
  "updates update_fn lr_fn ds opt_repl rngs_loop 0 = (opt_repl, rngs_loop)"
| "updates update_fn lr_fn ds opt_repl rngs_loop (Suc n) =
     (let (opt, rng) = updates update_fn lr_fn ds opt_repl rngs_loop n
      in update_fn opt (lr_fn (int n)) (ds ! n) rng)"

text \<open>One pass through the body of the loop: the new state, and whether the loop breaks.\<close>

definition finetune_step ::
  "float_lib \<Rightarrow> ('opt \<Rightarrow> 'lr \<Rightarrow> 'img batch \<Rightarrow> 'key \<Rightarrow> 'opt \<times> 'key)
     \<Rightarrow> ('opt \<Rightarrow> 'img batch \<Rightarrow> pyfloat \<times> pyfloat) \<Rightarrow> 'img dataset \<Rightarrow> 'img dataset \<Rightarrow> int
     \<Rightarrow> (int \<times> 'img batch \<times> 'lr) \<Rightarrow> ('opt, 'key) finetune_state \<Rightarrow> ('opt, 'key) finetune_state \<times> bool"
where
  "finetune_step L update_fn evaluation_fn train_eval_ds val_ds early_stopping_patience step s =
     (case step of (current_step, train_batch, lr_repl) \<Rightarrow>
      let (opt_repl, rngs_loop) = update_fn (st_opt_repl s) lr_repl train_batch (st_rngs_loop s);
          s = s\<lparr>st_opt_repl := opt_repl, st_rngs_loop := rngs_loop\<rparr>
      in if current_step mod 5 = 0 then
           let val_accuracy = get_accuracy L evaluation_fn opt_repl val_ds;
               s = s\<lparr>st_train_accuracies := st_train_accuracies s
                           @ [(current_step, get_accuracy L evaluation_fn opt_repl train_eval_ds)],
                      st_val_accuracies := st_val_accuracies s @ [(current_step, val_accuracy)]\<rparr>
           in if fge val_accuracy (st_best_opt_accuracy s) then
                (s\<lparr>st_best_step := current_step, st_best_opt_accuracy := val_accuracy,
                    st_best_opt_repl := Some opt_repl\<rparr>, False)
              else (s, early_stopping_patience \<le> current_step - st_best_step s)
         else (s, False))"

text \<open>
  The invariant of the loop: the best accuracy never drops below its initial \<open>-1\<close>, and a
  snapshot exists only if some recorded validation accuracy was at least \<open>-1\<close>.
\<close>

definition ft_inv :: "('opt, 'key) finetune_state \<Rightarrow> bool" where
  "ft_inv s \<longleftrightarrow> fge (st_best_opt_accuracy s) (Fin (- 1))
     \<and> (st_best_opt_repl s \<noteq> None \<longrightarrow> (\<exists>(step, acc)\<in>set (st_val_accuracies s). fge acc (Fin (- 1))))"

subsection \<open>Active learning controller: \<^verbatim>\<open>main\<close>\<close>

text \<open>
  The values \<^verbatim>\<open>main\<close> reads from its configuration (after the defaults of
  \<^verbatim>\<open>config.get\<close>).
\<close>

record config =
  cfg_acquisition_method :: string
  cfg_acquisition_batch_size :: int
  cfg_max_training_set_size :: int
  cfg_initial_training_set_size :: int
  cfg_early_stopping_patience :: int
  cfg_total_steps :: int

text \<open>
  The collaborators of \<^verbatim>\<open>main\<close>: the float operations, numpy's partition routine, the
  random number generator (\<open>env_split\<close> is \<^verbatim>\<open>jax.random.split\<close>, \<open>env_rng\<close> the key with
  which the acquisition of the initial training set starts), the model
  (\<open>env_fwd\<close>, \<open>env_update_fn\<close>, \<open>env_evaluation_fn\<close>, the pretrained \<open>env_opt_cpu\<close>),
  the density estimator, and the datasets. The three training datasets are built by
  \<^verbatim>\<open>input_utils.get_data\<close> from the current subset of ids (\<open>env_repeated_train_ds\<close> with
  the number of epochs that \<^verbatim>\<open>main\<close> computes from the subset's size).
\<close>

record ('opt, 'key, 'img, 'lr) env =
  env_lib :: float_lib
  env_sel :: partition_fn
  env_uniform :: "'key \<Rightarrow> nat \<Rightarrow> pyfloat"
  env_split :: "'key \<Rightarrow> 'key \<times> 'key"
  env_rng :: 'key
  env_fwd :: "'opt \<Rightarrow> bool \<Rightarrow> 'img \<Rightarrow> pyfloat list"
  env_update_fn :: "'opt \<Rightarrow> 'lr \<Rightarrow> 'img batch \<Rightarrow> 'key \<Rightarrow> 'opt \<times> 'key"
  env_evaluation_fn :: "'opt \<Rightarrow> 'img batch \<Rightarrow> pyfloat \<times> pyfloat"
  env_lda_scores :: "pyfloat list list \<Rightarrow> pyfloat list list \<Rightarrow> pyfloat list list \<Rightarrow> pyfloat list"
  env_opt_cpu :: 'opt
  env_lr_base :: 'lr
  env_val_ds :: "'img dataset"
  env_test_ds :: "'img dataset"
  env_pool_train_ds :: "'img dataset"
  env_repeated_train_ds :: "int set \<Rightarrow> 'img dataset"
  env_train_eval_ds :: "int set \<Rightarrow> 'img dataset"
  env_feature_train_ds :: "int set \<Rightarrow> 'img dataset"

text \<open>What \<^verbatim>\<open>main\<close> reports through \<^verbatim>\<open>wandb\<close>, in the order of the calls.\<close>

datatype log_event =
  LogInitialIds "int list"
| LogFinetune int finetune_info
| LogTestAccuracy int pyfloat
| LogAcquisition int "(int \<times> pyfloat) list"

text \<open>The variables that live across the rounds of the \<^verbatim>\<open>while\<close> loop.\<close>

record 'key al_state =
  subset_ids :: "int set"
  al_rng :: 'key
  al_rngs_loop :: 'key
  test_accuracies :: "pyfloat list"
  training_sizes :: "int list"
  al_log :: "log_event list"

text \<open>
  The dispatch on the acquisition method (the \<^verbatim>\<open>if\<close>/\<^verbatim>\<open>elif\<close> chain of a round): the scores
  of the pool and the rng afterwards.
\<close>

definition score_pool ::
  "('opt, 'key, 'img, 'lr) env \<Rightarrow> string \<Rightarrow> int \<Rightarrow> int set \<Rightarrow> 'opt \<Rightarrow> pyfloat list list
     \<Rightarrow> bool list \<Rightarrow> 'key \<Rightarrow> error + (pyfloat list \<times> 'key)"
where
  "score_pool E acquisition_method current_train_ds_length train_subset_ids current_opt_repl
       pool_outputs pool_masks rng =
     (if acquisition_method = ''uniform'' then
        let (rng, rng_loop) = env_split E rng
        in Inr (get_uniform_scores (env_uniform E) pool_masks rng, rng)
      else if acquisition_method = ''entropy'' then
        (case get_entropy_scores (env_lib E) pool_outputs pool_masks of
           Inl e \<Rightarrow> Inl e | Inr pool_scores \<Rightarrow> Inr (pool_scores, rng))
      else if acquisition_method = ''margin'' then
        (case get_margin_scores (env_lib E) pool_outputs pool_masks of
           Inl e \<Rightarrow> Inl e | Inr pool_scores \<Rightarrow> Inr (pool_scores, rng))
      else if acquisition_method = ''density'' then
        (if 0 < current_train_ds_length then
           (case get_density_scores (env_lib E) (env_lda_scores E) (env_fwd E) current_opt_repl
                   (env_feature_train_ds E train_subset_ids) pool_outputs pool_masks of
              Inl e \<Rightarrow> Inl e | Inr pool_scores \<Rightarrow> Inr (pool_scores, rng))
         else
           let (rng, rng_loop) = env_split E rng
           in Inr (get_uniform_scores (env_uniform E) pool_masks rng, rng))
      else Inl ValueError)"

text \<open>
  The fine-tuning stage of a round: skipped on an empty training set, otherwise
  \<^verbatim>\<open>finetune\<close> from the pretrained parameters, and its report.
\<close>

definition finetune_stage ::
  "('opt, 'key, 'img, 'lr) env \<Rightarrow> config \<Rightarrow> 'key al_state
     \<Rightarrow> error + ('opt \<times> 'key \<times> log_event list)"
where
  "finetune_stage E C st =
     (let current_train_ds_length = int (card (subset_ids st));
          current_opt_repl = env_opt_cpu E
      in if 0 < current_train_ds_length then
           (case finetune (env_lib E) (env_update_fn E) current_opt_repl (\<lambda>x. env_lr_base E)
                   (env_repeated_train_ds E (subset_ids st)) (al_rngs_loop st) (cfg_total_steps C)
                   (env_train_eval_ds E (subset_ids st)) (env_val_ds E) (env_evaluation_fn E)
                   (cfg_early_stopping_patience C) of
              Inl e \<Rightarrow> Inl e
            | Inr (current_opt_repl, rngs_loop, info) \<Rightarrow>
                Inr (current_opt_repl, rngs_loop,
                     al_log st @ [LogFinetune current_train_ds_length info]))
         else Inr (current_opt_repl, al_rngs_loop st, al_log st))"

text \<open>
  One round of the loop, after the test on the size of the training set: an error
  with what has been reported so far, or the state for the next round. Python
  iterates over the set of ignored ids in some order; the model takes the sorted one.
\<close>

definition al_round ::
  "('opt, 'key, 'img, 'lr) env \<Rightarrow> config \<Rightarrow> 'key al_state
     \<Rightarrow> (error \<times> log_event list) + 'key al_state"
where
  "al_round E C st =
     (let current_train_ds_length = int (card (subset_ids st))
      in case finetune_stage E C st of
           Inl e \<Rightarrow> Inl (e, al_log st)
         | Inr (current_opt_repl, rngs_loop, lg) \<Rightarrow>
             let test_accuracy =
                   get_accuracy (env_lib E) (env_evaluation_fn E) current_opt_repl (env_test_ds E);
                 lg = lg @ [LogTestAccuracy current_train_ds_length test_accuracy]
             in case get_ids_logits_masks (env_fwd E) current_opt_repl (env_pool_train_ds E)
                       (cfg_acquisition_method C = ''density'') of
                  Inl e \<Rightarrow> Inl (e, lg)
                | Inr (pool_ids, pool_outputs, _, pool_masks) \<Rightarrow>
                    (case score_pool E (cfg_acquisition_method C) current_train_ds_length
                            (subset_ids st) current_opt_repl pool_outputs pool_masks (al_rng st) of
                       Inl e \<Rightarrow> Inl (e, lg)
                     | Inr (pool_scores, rng) \<Rightarrow>
                         (case select_acquisition_batch_indices (env_sel E)
                                 (cfg_acquisition_batch_size C) pool_scores pool_ids
                                 (sorted_list_of_set (subset_ids st)) of
                            Inl e \<Rightarrow> Inl (e, lg)
                          | Inr (acquisition_batch_ids, acquisition_batch_scores) \<Rightarrow>
                              Inr \<lparr>subset_ids = subset_ids st \<union> set acquisition_batch_ids,
                                   al_rng = rng, al_rngs_loop = rngs_loop,
                                   test_accuracies = test_accuracies st @ [test_accuracy],
                                   training_sizes = training_sizes st @ [current_train_ds_length],
                                   al_log = lg @ [LogAcquisition current_train_ds_length
                                            (zip acquisition_batch_ids acquisition_batch_scores)]\<rparr>)))"

text \<open>
  The \<^verbatim>\<open>while True\<close> loop. It ends when the training set has reached its maximal size
  or a round fails; \<open>None\<close> when the fuel does not suffice (the loop has no bound of
  its own: a round that acquires nothing new is repeated for ever).
\<close>

fun al_loop ::
  "nat \<Rightarrow> ('opt, 'key, 'img, 'lr) env \<Rightarrow> config \<Rightarrow> 'key al_state
     \<Rightarrow> (error + (int set \<times> pyfloat list)) option \<times> log_event list"
where
  "al_loop 0 E C st = (None, al_log st)"
| "al_loop (Suc fuel) E C st =
     (if cfg_max_training_set_size C \<le> int (card (subset_ids st))
      then (Some (Inr (subset_ids st, test_accuracies st)), al_log st)
      else (case al_round E C st of
              Inl (e, lg) \<Rightarrow> (Some (Inl e), lg)
            | Inr st' \<Rightarrow> al_loop fuel E C st'))"

text \<open>The acquisition of the initial training set.\<close>

definition initial_training_set ::
  "('opt, 'key, 'img, 'lr) env \<Rightarrow> config \<Rightarrow> error + (int list \<times> 'key)" where
  "initial_training_set E C =
     (if 0 < cfg_initial_training_set_size C then
        (case get_ids_logits_masks (env_fwd E) (env_opt_cpu E) (env_pool_train_ds E) False of
           Inl e \<Rightarrow> Inl e
         | Inr (pool_ids, _, _, pool_masks) \<Rightarrow>
             let (rng, initial_uniform_rng) = env_split E (env_rng E);
                 pool_scores = get_uniform_scores (env_uniform E) pool_masks initial_uniform_rng
             in (case select_acquisition_batch_indices (env_sel E)
                        (cfg_initial_training_set_size C) pool_scores pool_ids [] of
                   Inl e \<Rightarrow> Inl e
                 | Inr (initial_training_set_batch_ids, _) \<Rightarrow>
                     Inr (initial_training_set_batch_ids, rng)))
      else Inr ([], env_rng E))"

text \<open>\<^verbatim>\<open>main\<close>, from the acquisition of the initial training set on.\<close>

definition main ::
  "nat \<Rightarrow> ('opt, 'key, 'img, 'lr) env \<Rightarrow> config
     \<Rightarrow> (error + (int set \<times> pyfloat list)) option \<times> log_event list"
where
  "main fuel E C =
     (case initial_training_set E C of
        Inl e \<Rightarrow> (Some (Inl e), [])
      | Inr (initial_training_set_batch_ids, rng) \<Rightarrow>
          let (rng, rng_loop) = env_split E rng;
              (rng, train_ds_rng) = env_split E rng
          in al_loop fuel E C
               \<lparr>subset_ids = set initial_training_set_batch_ids, al_rng = rng,
                al_rngs_loop = rng_loop, test_accuracies = [], training_sizes = [],
                al_log = [LogInitialIds initial_training_set_batch_ids]\<rparr>)"

text \<open>
  The entry point \<^verbatim>\<open>_main\<close>: the flag \<^verbatim>\<open>acquisition_method\<close> is an enum flag, so the flag
  library rejects any other value before \<^verbatim>\<open>_main\<close> runs; \<^verbatim>\<open>_main\<close> then requires eight
  devices and calls \<^verbatim>\<open>main\<close>.
\<close>

definition acquisition_method_enum_values :: "string list" where
  "acquisition_method_enum_values = [''uniform'', ''density'', ''margin'', ''entropy'']"

definition cli_main ::
  "nat \<Rightarrow> nat \<Rightarrow> ('opt, 'key, 'img, 'lr) env \<Rightarrow> config
     \<Rightarrow> (error + (int set \<times> pyfloat list)) option \<times> log_event list"
where
  "cli_main fuel device_count E C =
     (if cfg_acquisition_method C \<notin> set acquisition_method_enum_values
      then (Some (Inl IllegalFlagValueError), [])
      else if device_count < 8 then (Some (Inl RuntimeError), [])
      else main fuel E C)"






text \<open>The sizes of the training set at which \<^verbatim>\<open>main\<close> reported an acquisition.\<close>

fun acquisition_size :: "log_event \<Rightarrow> int list" where
  "acquisition_size (LogAcquisition n batch) = [n]"
| "acquisition_size _ = []"

definition acquisition_sizes :: "log_event list \<Rightarrow> int list" where
  "acquisition_sizes lg = concat (map acquisition_size lg)"

text \<open>
  A small environment to run the controller on: exact arithmetic, a stable sort as
  partition routine, counters as optimizer and rng, a constant accuracy of one half,
  five training batches whatever the subset. \<open>example_pool\<close> has four valid examples
  and two padding entries; \<open>consecutive_pool n\<close> has \<open>n\<close> valid examples with the ids
  \<open>0, \<dots>, n - 1\<close>.
\<close>

definition example_env :: "real dataset \<Rightarrow> (int, int, real, unit) env" where
  "example_env pool =
     \<lparr>env_lib = exact_lib, env_sel = argsort_partition,
      env_uniform = (\<lambda>key i. Fin (1 / (2 + real_of_int key + real i))),
      env_split = (\<lambda>key. (2 * key + 1, 2 * key + 2)), env_rng = 0,
      env_fwd = (\<lambda>opt pre_logits image. [Fin image, Fin 0]),
      env_update_fn = (\<lambda>opt lr batch rng. (opt + 1, rng + 1)),
      env_evaluation_fn = (\<lambda>opt batch. (Fin 1, Fin 2)),
      env_lda_scores = (\<lambda>train_pre_logits train_labels pool_pre_logits.
                          map (\<lambda>row. row ! 0) pool_pre_logits),
      env_opt_cpu = 0, env_lr_base = (),
      env_val_ds = [[]], env_test_ds = [[]], env_pool_train_ds = pool,
      env_repeated_train_ds = (\<lambda>ids. [[], [], [], [], []]),
      env_train_eval_ds = (\<lambda>ids. [[]]),
      env_feature_train_ds = (\<lambda>ids. [[]])\<rparr>"

definition example_pool :: "real dataset" where
  "example_pool =
     [[\<lparr>ex_id = 0, ex_image = 0, ex_labels = [], ex_mask = True\<rparr>,
       \<lparr>ex_id = 1, ex_image = 1, ex_labels = [], ex_mask = True\<rparr>,
       \<lparr>ex_id = 2, ex_image = 2, ex_labels = [], ex_mask = True\<rparr>],
      [\<lparr>ex_id = 3, ex_image = 3, ex_labels = [], ex_mask = True\<rparr>,
       \<lparr>ex_id = 0, ex_image = 0, ex_labels = [], ex_mask = False\<rparr>,
       \<lparr>ex_id = 0, ex_image = 0, ex_labels = [], ex_mask = False\<rparr>]]"


section \<open>Proofs: the selection engine\<close>

subsection \<open>Basic facts\<close>

lemma list_index_None: "list_index xs x = None \<longleftrightarrow> x \<notin> set xs"
  by (induction xs) auto

lemma list_index_Some:
  "list_index xs x = Some i \<Longrightarrow> i < length xs \<and> xs ! i = x \<and> (\<forall>j<i. xs ! j \<noteq> x)"
proof (induction xs arbitrary: i)
  case Nil
  then show ?case by simp
next
  case (Cons y ys)
  show ?case
  proof (cases "y = x")
    case True
    with Cons.prems show ?thesis by simp
  next
    case False
    with Cons.prems obtain i' where i': "list_index ys x = Some i'" "i = Suc i'"
      by auto
    from Cons.IH[OF i'(1)] False i'(2) show ?thesis
      by (auto simp: nth_Cons split: nat.splits)
  qed
qed


lemma ignore_ids_length:
  "ignore_ids ids ign scores = Inr scores' \<Longrightarrow> length scores' = length scores"
  by (induction ign arbitrary: scores) (auto split: option.splits if_splits)

lemma list_index_first:
  assumes "j < length xs" "\<forall>i<j. xs ! i \<noteq> xs ! j"
  shows "list_index xs (xs ! j) = Some j"
proof -
  have "xs ! j \<in> set xs" using assms(1) by simp
  then obtain i where i: "list_index xs (xs ! j) = Some i"
    using list_index_None[of xs "xs ! j"] by (cases "list_index xs (xs ! j)") auto
  from list_index_Some[OF i] have "i < length xs" "xs ! i = xs ! j" "\<forall>l<i. xs ! l \<noteq> xs ! j"
    by auto
  with assms have "i = j"
    by (metis linorder_neqE_nat)
  with i show ?thesis by simp
qed

lemma ignore_ids_closed:
  "length scores = length ids \<Longrightarrow> set ign \<subseteq> set ids \<Longrightarrow>
   ignore_ids ids ign scores = Inr (forced_scores ids (set ign) scores)"
proof (induction ign arbitrary: scores)
  case Nil
  show ?case by (simp add: forced_scores_def map_nth)
next
  case (Cons x rest)
  from Cons.prems(2) have "x \<in> set ids" by simp
  then obtain i where i: "list_index ids x = Some i"
    using list_index_None[of ids x] by (cases "list_index ids x") auto
  note fi = list_index_Some[OF i]
  have len: "length (scores[i := NINF_SCORE]) = length ids" using Cons.prems(1) by simp
  have "ignore_ids ids (x # rest) scores = ignore_ids ids rest (scores[i := NINF_SCORE])"
    using i fi Cons.prems(1) by simp
  also have "\<dots> = Inr (forced_scores ids (set rest) (scores[i := NINF_SCORE]))"
    using Cons.IH[OF len] Cons.prems(2) by simp
  also have "forced_scores ids (set rest) (scores[i := NINF_SCORE])
             = forced_scores ids (set (x # rest)) scores"
    unfolding forced_scores_def
  proof (rule nth_equalityI, simp, simp only: length_map length_upt)
    fix j assume "j < length (scores[i := NINF_SCORE]) - 0"
    then have j: "j < length scores" by simp
    show "map (\<lambda>j. if ids ! j \<in> set rest \<and> (\<forall>i<j. ids ! i \<noteq> ids ! j) then NINF_SCORE
                    else scores[i := NINF_SCORE] ! j) [0..<length (scores[i := NINF_SCORE])] ! j
        = map (\<lambda>j. if ids ! j \<in> set (x # rest) \<and> (\<forall>i<j. ids ! i \<noteq> ids ! j) then NINF_SCORE
                    else scores ! j) [0..<length scores] ! j"
    proof (cases "j = i")
      case True
      then show ?thesis using j fi by auto
    next
      case False
      have "\<not> (ids ! j = x \<and> (\<forall>l<j. ids ! l \<noteq> ids ! j))"
      proof
        assume a: "ids ! j = x \<and> (\<forall>l<j. ids ! l \<noteq> ids ! j)"
        have "j < length ids" using j Cons.prems(1) by simp
        moreover have "\<forall>l<j. ids ! l \<noteq> ids ! j" using a by blast
        ultimately have "list_index ids (ids ! j) = Some j"
          by (rule list_index_first)
        with a i False show False by simp
      qed
      then show ?thesis using j False by auto
    qed
  qed
  finally show ?case .
qed

lemma ignore_ids_absent:
  "length scores = length ids \<Longrightarrow> \<not> set ign \<subseteq> set ids \<Longrightarrow>
   ignore_ids ids ign scores = Inl ValueError"
proof (induction ign arbitrary: scores)
  case Nil
  then show ?case by simp
next
  case (Cons x rest)
  show ?case
  proof (cases "list_index ids x")
    case None
    then show ?thesis by simp
  next
    case (Some i)
    note fi = list_index_Some[OF Some]
    then have "x \<in> set ids" by auto
    with Cons.prems(2) have "\<not> set rest \<subseteq> set ids" by simp
    with Cons.IH[of "scores[i := NINF_SCORE]"] Cons.prems(1) Some fi show ?thesis by simp
  qed
qed


lemma valid_iff_key: "fgt s NINF_SCORE \<longleftrightarrow> np_key (fneg s) < (2, 0)"
  by (cases s) (auto simp: fgt_def NINF_SCORE_def)

lemma valid_cases: "fgt s NINF_SCORE \<longleftrightarrow> (s = PInf \<or> (\<exists>r. s = Fin r))"
  by (cases s) (auto simp: fgt_def NINF_SCORE_def)

lemma fneg_key_le:
  "a \<noteq> NaN \<Longrightarrow> b \<noteq> NaN \<Longrightarrow> np_key (fneg a) \<le> np_key (fneg b) \<Longrightarrow> fle b a"
  by (cases a; cases b) (auto simp: fle_def fge_def)

lemma partition_take:
  assumes ok: "argpartition_ok a k p" and k: "k < length a"
  shows "length (take k p) = k" "distinct (take k p)" "set (take k p) \<subseteq> {0..<length a}"
    and "\<And>i j. i \<in> set (take k p) \<Longrightarrow> j < length a \<Longrightarrow> j \<notin> set (take k p)
            \<Longrightarrow> np_key (a ! i) \<le> np_key (a ! j)"
proof -
  from ok have d: "distinct p" and s: "set p = {0..<length a}"
    and lo: "\<And>i. i < k \<Longrightarrow> np_key (a ! (p ! i)) \<le> np_key (a ! (p ! k))"
    and hi: "\<And>i. k < i \<Longrightarrow> i < length a \<Longrightarrow> np_key (a ! (p ! k)) \<le> np_key (a ! (p ! i))"
    by (auto simp: argpartition_ok_def)
  from d s have len: "length p = length a"
    by (metis card_atLeastLessThan diff_zero distinct_card)
  show "length (take k p) = k" using len k by simp
  show "distinct (take k p)" using d by simp
  show "set (take k p) \<subseteq> {0..<length a}" using s set_take_subset[of k p] by auto
  fix i j assume i: "i \<in> set (take k p)" and j: "j < length a" and nj: "j \<notin> set (take k p)"
  from i obtain i' where i': "i' < k" "i = p ! i'"
    using len k by (auto simp: in_set_conv_nth)
  from j s obtain j' where j': "j' < length p" "j = p ! j'"
    by (metis atLeastLessThan_iff in_set_conv_nth zero_le)
  have "\<not> j' < k"
  proof
    assume "j' < k"
    then have "p ! j' \<in> set (take k p)" using len k by (auto simp: in_set_conv_nth)
    with nj j' show False by simp
  qed
  then have "k = j' \<or> k < j'" by auto
  then have "np_key (a ! (p ! k)) \<le> np_key (a ! (p ! j'))"
    using hi j'(1) len by auto
  with lo[OF i'(1)] show "np_key (a ! i) \<le> np_key (a ! j)"
    using i'(2) j'(2) by simp
qed

lemma partition_take_below:
  assumes ok: "argpartition_ok a k p" and k: "k < length a"
    and enough: "k \<le> card {j. j < length a \<and> np_key (a ! j) < c}"
  shows "\<forall>i\<in>set (take k p). np_key (a ! i) < c"
proof (rule ccontr)
  assume "\<not> (\<forall>i\<in>set (take k p). np_key (a ! i) < c)"
  then obtain i where i: "i \<in> set (take k p)" and ci: "c \<le> np_key (a ! i)"
    by (auto simp: not_less)
  note pt = partition_take[OF ok k]
  have "{j. j < length a \<and> np_key (a ! j) < c} \<subseteq> set (take k p) - {i}"
  proof
    fix j assume "j \<in> {j. j < length a \<and> np_key (a ! j) < c}"
    then have j: "j < length a" "np_key (a ! j) < c" by auto
    have "j \<in> set (take k p)"
    proof (rule ccontr)
      assume "j \<notin> set (take k p)"
      from pt(4)[OF i j(1) this] ci j(2) show False by simp
    qed
    moreover have "j \<noteq> i" using ci j(2) by auto
    ultimately show "j \<in> set (take k p) - {i}" by simp
  qed
  then have "card {j. j < length a \<and> np_key (a ! j) < c} \<le> card (set (take k p) - {i})"
    by (intro card_mono) auto
  also have "\<dots> = k - 1"
    using i pt(1,2) by (simp add: distinct_card)
  finally have "k \<le> k - 1" using enough by simp
  moreover have "0 < k" using i pt(1) by (cases k) auto
  ultimately show False by simp
qed


lemma forced_scores_length: "length (forced_scores ids S scores) = length scores"
  by (simp add: forced_scores_def)

lemma forced_scores_nth:
  "j < length scores \<Longrightarrow>
   forced_scores ids S scores ! j =
     (if ids ! j \<in> S \<and> (\<forall>i<j. ids ! i \<noteq> ids ! j) then NINF_SCORE else scores ! j)"
  unfolding forced_scores_def by (simp del: not_ex not_all)

lemma forced_scores_valid:
  assumes "j < length scores"
    and "fgt (scores ! j) NINF_SCORE \<longrightarrow> (\<forall>i<j. ids ! i \<noteq> ids ! j)"
    and "fgt (forced_scores ids S scores ! j) NINF_SCORE"
  shows "ids ! j \<notin> S \<and> forced_scores ids S scores ! j = scores ! j"
  using assms by (auto simp: forced_scores_nth fgt_def NINF_SCORE_def split: if_splits)

lemma select_props:
  assumes con: "np_argpartition_contract sel"
    and len: "length scores = length ids"
    and k0: "0 \<le> k" and kn: "k < int (length ids)"
    and sub: "set ign \<subseteq> set ids"
    and first: "\<forall>j<length ids. fgt (scores ! j) NINF_SCORE \<longrightarrow> (\<forall>i<j. ids ! i \<noteq> ids ! j)"
    and enough: "k \<le> int (length (filter (\<lambda>j. ids ! j \<notin> set ign \<and> fgt (scores ! j) NINF_SCORE)
                                  [0..<length ids]))"
    and some: "\<exists>j<length ids. ids ! j \<notin> set ign \<and> fgt (scores ! j) NINF_SCORE"
  shows "\<exists>top. select_acquisition_batch_indices sel k scores ids ign =
            Inr (map (\<lambda>i. ids ! i) top, map (\<lambda>i. forced_scores ids (set ign) scores ! i) top)
     \<and> int (length top) = k \<and> distinct top \<and> set top \<subseteq> {0..<length ids}
     \<and> (\<forall>i\<in>set top. fgt (scores ! i) NINF_SCORE \<and> ids ! i \<notin> set ign
            \<and> forced_scores ids (set ign) scores ! i = scores ! i)
     \<and> (\<forall>i\<in>set top. \<forall>j<length ids. j \<notin> set top \<longrightarrow>
            np_key (fneg (forced_scores ids (set ign) scores ! i))
              \<le> np_key (fneg (forced_scores ids (set ign) scores ! j)))"
proof -
  define scores' where "scores' = forced_scores ids (set ign) scores"
  define a where "a = map fneg scores'"
  define p where "p = sel a (nat k)"
  define top where "top = take (nat k) p"
  have len': "length scores' = length ids"
    by (simp add: scores'_def forced_scores_length len)
  have lena: "length a = length ids" by (simp add: a_def len')
  have ign: "ignore_ids ids ign scores = Inr scores'"
    unfolding scores'_def by (rule ignore_ids_closed[OF len sub])
  have keep: "scores' ! j = scores ! j" if "j < length ids" "ids ! j \<notin> set ign" for j
    using that by (simp add: scores'_def forced_scores_nth len)
  have valid: "ids ! j \<notin> set ign \<and> scores' ! j = scores ! j"
    if "j < length ids" "fgt (scores' ! j) NINF_SCORE" for j
    unfolding scores'_def
    by (rule forced_scores_valid) (use that first len in \<open>auto simp: scores'_def\<close>)
  from some obtain j0 where j0: "j0 < length ids" "ids ! j0 \<notin> set ign" "fgt (scores ! j0) NINF_SCORE"
    by blast
  have "scores' ! j0 \<in> set scores'" using j0(1) len' by simp
  moreover have "fgt (scores' ! j0) NINF_SCORE" using keep[OF j0(1,2)] j0(3) by simp
  ultimately have f_ent: "filter (\<lambda>s. fgt s NINF_SCORE) scores' \<noteq> []"
    by (auto simp: filter_empty_conv)
  have kk: "nat k < length a" using k0 kn lena by simp
  have ane: "a \<noteq> []" using kk by auto
  have part: "np_argpartition sel a k = Inr p"
    using k0 kn lena ane by (simp add: np_argpartition_def p_def Let_def)
  have ok: "argpartition_ok a (nat k) p"
    using con kk by (simp add: np_argpartition_contract_def p_def)
  note pt = partition_take[OF ok kk, folded top_def]
  have slice: "py_slice_to p k = top" using k0 by (simp add: py_slice_to_def top_def)
  have inr: "\<not> (\<exists>i\<in>set top. length ids \<le> i \<or> length scores' \<le> i)"
    using pt(3) lena len' by auto
  have res: "select_acquisition_batch_indices sel k scores ids ign =
          Inr (map (\<lambda>i. ids ! i) top, map (\<lambda>i. scores' ! i) top)"
    unfolding select_acquisition_batch_indices_def
    using ign f_ent part slice inr by (simp add: a_def Let_def)
  let ?V = "filter (\<lambda>j. ids ! j \<notin> set ign \<and> fgt (scores ! j) NINF_SCORE) [0..<length ids]"
  have "set ?V \<subseteq> {j. j < length a \<and> np_key (a ! j) < (2, 0)}"
  proof
    fix j assume "j \<in> set ?V"
    then have j: "j < length ids" "ids ! j \<notin> set ign" "fgt (scores ! j) NINF_SCORE" by auto
    have "a ! j = fneg (scores ! j)" using j(1) keep[OF j(1,2)] len' by (simp add: a_def)
    with j(1,3) lena show "j \<in> {j. j < length a \<and> np_key (a ! j) < (2, 0)}"
      by (simp add: valid_iff_key)
  qed
  then have "card (set ?V) \<le> card {j. j < length a \<and> np_key (a ! j) < (2, 0)}"
    by (intro card_mono) auto
  moreover have "card (set ?V) = length ?V" by (rule distinct_card) simp
  ultimately have "nat k \<le> card {j. j < length a \<and> np_key (a ! j) < (2, 0)}"
    using enough by linarith
  from partition_take_below[OF ok kk this]
  have below: "\<forall>i\<in>set top. np_key (a ! i) < (2, 0)" by (simp add: top_def)
  have topvalid: "fgt (scores ! i) NINF_SCORE \<and> ids ! i \<notin> set ign \<and> scores' ! i = scores ! i"
    if "i \<in> set top" for i
  proof -
    from that pt(3) lena have i: "i < length ids" by auto
    from below that have "np_key (a ! i) < (2, 0)" by blast
    then have "fgt (scores' ! i) NINF_SCORE" using i len' by (simp add: a_def valid_iff_key)
    from valid[OF i this] this show ?thesis by simp
  qed
  have order: "np_key (fneg (scores' ! i)) \<le> np_key (fneg (scores' ! j))"
    if "i \<in> set top" "j < length ids" "j \<notin> set top" for i j
  proof -
    from that(1) pt(3) lena have i: "i < length ids" by auto
    from pt(4)[OF that(1) _ that(3)] that(2) lena
    have "np_key (a ! i) \<le> np_key (a ! j)" by simp
    then show ?thesis using i that(2) len' by (simp add: a_def)
  qed
  have "int (length top) = k" using pt(1) k0 by simp
  with res pt(2,3) lena topvalid order show ?thesis
    unfolding scores'_def[symmetric] by (intro exI[of _ top]) auto
qed

lemma ignore_ids_succeeds:
  "\<forall>x\<in>set ign. \<exists>i<length scores. list_index ids x = Some i \<Longrightarrow>
   ignore_ids ids ign scores =
     Inr (map (\<lambda>j. if \<exists>x\<in>set ign. list_index ids x = Some j then NINF_SCORE else scores ! j)
            [0..<length scores])"
proof (induction ign arbitrary: scores)
  case Nil
  show ?case by (simp add: map_nth)
next
  case (Cons x rest)
  from Cons.prems obtain i where i: "i < length scores" "list_index ids x = Some i" by auto
  have rest: "\<forall>y\<in>set rest. \<exists>j<length (scores[i := NINF_SCORE]). list_index ids y = Some j"
    using Cons.prems by simp
  have "ignore_ids ids (x # rest) scores = ignore_ids ids rest (scores[i := NINF_SCORE])"
    using i by simp
  also have "\<dots> = Inr (map (\<lambda>j. if \<exists>y\<in>set rest. list_index ids y = Some j then NINF_SCORE
                                 else scores[i := NINF_SCORE] ! j)
                          [0..<length (scores[i := NINF_SCORE])])"
    by (rule Cons.IH[OF rest])
  also have "map (\<lambda>j. if \<exists>y\<in>set rest. list_index ids y = Some j then NINF_SCORE
                        else scores[i := NINF_SCORE] ! j) [0..<length (scores[i := NINF_SCORE])]
           = map (\<lambda>j. if \<exists>y\<in>set (x # rest). list_index ids y = Some j then NINF_SCORE
                        else scores ! j) [0..<length scores]"
    using i by (auto simp: nth_list_update)
  finally show ?case .
qed

lemma ignore_ids_fails:
  "\<not> (\<forall>x\<in>set ign. \<exists>i<length scores. list_index ids x = Some i) \<Longrightarrow>
   \<exists>e. ignore_ids ids ign scores = Inl e"
proof (induction ign arbitrary: scores)
  case Nil
  then show ?case by simp
next
  case (Cons x rest)
  show ?case
  proof (cases "list_index ids x")
    case None
    then show ?thesis by simp
  next
    case (Some i)
    show ?thesis
    proof (cases "i < length scores")
      case False
      with Some show ?thesis by simp
    next
      case True
      with Some Cons.prems
      have "\<not> (\<forall>y\<in>set rest. \<exists>j<length (scores[i := NINF_SCORE]). list_index ids y = Some j)"
        by auto
      from Cons.IH[OF this] Some True show ?thesis by simp
    qed
  qed
qed

lemma ignore_ids_Inr_set:
  assumes "set ign1 = set ign2" "ignore_ids ids ign1 scores = Inr s"
  shows "ignore_ids ids ign2 scores = Inr s"
proof -
  have c: "\<forall>x\<in>set ign1. \<exists>i<length scores. list_index ids x = Some i"
    using ignore_ids_fails[of ign1 scores ids] assms(2) by auto
  from ignore_ids_succeeds[OF c] assms(2)
  have "s = map (\<lambda>j. if \<exists>x\<in>set ign1. list_index ids x = Some j then NINF_SCORE else scores ! j)
            [0..<length scores]" by simp
  moreover from c assms(1) have "\<forall>x\<in>set ign2. \<exists>i<length scores. list_index ids x = Some i"
    by simp
  from ignore_ids_succeeds[OF this]
  have "ignore_ids ids ign2 scores =
     Inr (map (\<lambda>j. if \<exists>x\<in>set ign2. list_index ids x = Some j then NINF_SCORE else scores ! j)
            [0..<length scores])" .
  ultimately show ?thesis using assms(1) by simp
qed

lemma select_example:
  "select_acquisition_batch_indices argsort_partition 1 [Fin 3, Fin 1, Fin 2] [10, 11, 12] [11, 10]
     = Inr ([12], [Fin 2])"
  by (simp add: select_acquisition_batch_indices_def np_argpartition_def fgt_def NINF_SCORE_def
       argsort_partition_def py_slice_to_def upt_rec)


lemma argsort_partition_contract: "np_argpartition_contract argsort_partition"
  unfolding np_argpartition_contract_def
proof (intro allI impI)
  fix a :: "pyfloat list" and k assume k: "k < length a"
  define p where "p = argsort_partition a k"
  have srt: "sorted (map (\<lambda>i. np_key (a ! i)) p)"
    by (simp add: p_def argsort_partition_def)
  have d: "distinct p" by (simp add: p_def argsort_partition_def)
  have s: "set p = {0..<length a}" by (simp add: p_def argsort_partition_def)
  have len: "length p = length a" by (simp add: p_def argsort_partition_def)
  have mono: "np_key (a ! (p ! i)) \<le> np_key (a ! (p ! j))" if "i \<le> j" "j < length a" for i j
    using sorted_nth_mono[OF srt, of i j] that len by simp
  show "argpartition_ok a k (argsort_partition a k)"
    unfolding argpartition_ok_def p_def[symmetric]
    using d s mono k by auto
qed

text \<open>
  Claim C1 (top-k selection). When the partition routine meets numpy's contract, scores
  and ids have the same length, \<open>0 \<le> k < length ids\<close>, every ignored id occurs in
  ids, no score is NaN, every entry with a score above \<open>-inf\<close> is the first occurrence
  of its id, and at least \<open>k\<close> (and at least one) non-ignored entries have a score
  above \<open>-inf\<close>, the call returns exactly \<open>k\<close> ids, none of them ignored, and
  every id that is not returned has a score (\<open>-inf\<close> for an ignored id) less than or
  equal to every returned score. The returned ids and scores are the ids and the scores
  of \<open>k\<close> distinct pool entries \<open>top\<close>, in the same order; the returned ids are
  distinct, every returned score is above \<open>-inf\<close>, and every entry outside \<open>top\<close>
  has a score (\<open>-inf\<close> for an ignored id) less than or equal to the score of every
  entry of \<open>top\<close>.
\<close>

theorem select_top_k:
  assumes "np_argpartition_contract sel"
    and "length scores = length ids"
    and "0 \<le> k" and "k < int (length ids)"
    and "set ignored_ids \<subseteq> set ids"
    and "NaN \<notin> set scores"
    and "\<forall>j<length ids. fgt (scores ! j) NINF_SCORE \<longrightarrow> (\<forall>i<j. ids ! i \<noteq> ids ! j)"
    and "k \<le> int (length (filter (\<lambda>j. ids ! j \<notin> set ignored_ids \<and> fgt (scores ! j) NINF_SCORE)
                            [0..<length ids]))"
    and "\<exists>j<length ids. ids ! j \<notin> set ignored_ids \<and> fgt (scores ! j) NINF_SCORE"
  shows "\<exists>top_ids top_scores top.
           select_acquisition_batch_indices sel k scores ids ignored_ids = Inr (top_ids, top_scores)
         \<and> int (length top_ids) = k
         \<and> set top_ids \<inter> set ignored_ids = {}
         \<and> (\<forall>j<length ids. ids ! j \<notin> set top_ids \<longrightarrow>
               (\<forall>s\<in>set top_scores.
                  fle (if ids ! j \<in> set ignored_ids then NINF_SCORE else scores ! j) s))
         \<and> top_ids = map (\<lambda>i. ids ! i) top
         \<and> top_scores = map (\<lambda>i. scores ! i) top
         \<and> distinct top \<and> set top \<subseteq> {0..<length ids}
         \<and> distinct top_ids
         \<and> (\<forall>i\<in>set top. fgt (scores ! i) NINF_SCORE)
         \<and> (\<forall>j<length ids. j \<notin> set top \<longrightarrow>
               (\<forall>i\<in>set top.
                  fle (if ids ! j \<in> set ignored_ids then NINF_SCORE else scores ! j) (scores ! i)))"
proof -
  let ?f = "forced_scores ids (set ignored_ids) scores"
  from select_props[OF assms(1-5) assms(7-9)]
  obtain top where res: "select_acquisition_batch_indices sel k scores ids ignored_ids =
            Inr (map (\<lambda>i. ids ! i) top, map (\<lambda>i. ?f ! i) top)"
    and lt: "int (length top) = k" and dt: "distinct top" and st: "set top \<subseteq> {0..<length ids}"
    and tv: "\<forall>i\<in>set top. fgt (scores ! i) NINF_SCORE \<and> ids ! i \<notin> set ignored_ids \<and> ?f ! i = scores ! i"
    and ord: "\<forall>i\<in>set top. \<forall>j<length ids. j \<notin> set top \<longrightarrow>
            np_key (fneg (?f ! i)) \<le> np_key (fneg (?f ! j))"
    by blast
  have nn: "scores ! j \<noteq> NaN" if "j < length ids" for j
    using that assms(2,6) by (metis nth_mem)
  have fj: "?f ! j = (if ids ! j \<in> set ignored_ids then NINF_SCORE else scores ! j)"
    if j: "j < length ids" for j
  proof (cases "ids ! j \<in> set ignored_ids \<and> \<not> (\<forall>i<j. ids ! i \<noteq> ids ! j)")
    case True
    with assms(7) j have "\<not> fgt (scores ! j) NINF_SCORE" by blast
    with nn[OF j] have "scores ! j = NINF_SCORE"
      by (cases "scores ! j") (auto simp: fgt_def NINF_SCORE_def)
    with True j assms(2) show ?thesis by (simp add: forced_scores_nth)
  next
    case False
    with j assms(2) show ?thesis by (auto simp: forced_scores_nth)
  qed
  have sc: "map (\<lambda>i. ?f ! i) top = map (\<lambda>i. scores ! i) top"
    using tv by simp
  have valid: "\<forall>i\<in>set top. fgt (scores ! i) NINF_SCORE"
    using tv by blast
  have disj: "set (map (\<lambda>i. ids ! i) top) \<inter> set ignored_ids = {}"
    using tv by auto
  have inj: "inj_on (\<lambda>i. ids ! i) (set top)"
  proof (rule inj_onI)
    fix i j assume i: "i \<in> set top" and j: "j \<in> set top" and e: "ids ! i = ids ! j"
    from i j st have il: "i < length ids" and jl: "j < length ids" by auto
    from valid i j have vi: "fgt (scores ! i) NINF_SCORE" and vj: "fgt (scores ! j) NINF_SCORE"
      by blast+
    show "i = j"
    proof (rule ccontr)
      assume "i \<noteq> j"
      then consider "i < j" | "j < i" by linarith
      then show False
      proof cases
        case 1
        with assms(7) jl vj e show False by blast
      next
        case 2
        with assms(7) il vi e[symmetric] show False by blast
      qed
    qed
  qed
  have dids: "distinct (map (\<lambda>i. ids ! i) top)"
    using dt inj by (simp add: distinct_map)
  have topi: "fle (if ids ! j \<in> set ignored_ids then NINF_SCORE else scores ! j) (scores ! i)"
    if j: "j < length ids" and nj: "j \<notin> set top" and i: "i \<in> set top" for i j
  proof -
    from ord i j nj have le: "np_key (fneg (?f ! i)) \<le> np_key (fneg (?f ! j))" by blast
    from i st have il: "i < length ids" by auto
    from tv i have fi: "?f ! i = scores ! i" by blast
    with nn[OF il] have n1: "?f ! i \<noteq> NaN" by simp
    have n2: "?f ! j \<noteq> NaN" using fj[OF j] nn[OF j] by (simp add: NINF_SCORE_def)
    from fneg_key_le[OF n1 n2 le] show ?thesis using fj[OF j] fi by simp
  qed
  have topk: "fle (if ids ! j \<in> set ignored_ids then NINF_SCORE else scores ! j) s"
    if j: "j < length ids" and nj: "ids ! j \<notin> set (map (\<lambda>i. ids ! i) top)"
      and s: "s \<in> set (map (\<lambda>i. scores ! i) top)" for j s
  proof -
    from s obtain i where i: "i \<in> set top" "s = scores ! i" by auto
    from nj have "j \<notin> set top" by auto
    from topi[OF j this i(1)] i(2) show ?thesis by simp
  qed
  have len: "int (length (map (\<lambda>i. ids ! i) top)) = k" using lt by simp
  show ?thesis
    apply (rule exI[of _ "map (\<lambda>i. ids ! i) top"])
    apply (rule exI[of _ "map (\<lambda>i. scores ! i) top"])
    apply (rule exI[of _ top])
    apply (intro conjI)
    subgoal using res sc by simp
    subgoal by (rule len)
    subgoal by (rule disj)
    subgoal using topk by blast
    subgoal by (rule refl)
    subgoal by (rule refl)
    subgoal by (rule dt)
    subgoal by (rule st)
    subgoal by (rule dids)
    subgoal by (rule valid)
    subgoal using topi by blast
    done
qed

theorem select_top_k_witness:
  "\<exists>top_ids top_scores top.
     select_acquisition_batch_indices argsort_partition 1 [Fin 3, Fin 1, Fin 2] [10, 11, 12] [11]
       = Inr (top_ids, top_scores)
   \<and> top_ids = [10] \<and> top_scores = [Fin 3] \<and> top = [0]
   \<and> int (length top_ids) = 1
   \<and> set top_ids \<inter> set [11] = {}
   \<and> top_ids = map (\<lambda>i. [10, 11, 12 :: int] ! i) top
   \<and> top_scores = map (\<lambda>i. [Fin 3, Fin 1, Fin 2] ! i) top
   \<and> distinct top_ids
   \<and> fle (Fin 2) (Fin 3) \<and> fle NINF_SCORE (Fin 3)"
proof -
  have u: "[0..<3] = [0, 1, 2]" by (simp add: upt_rec)
  have a: "\<forall>j<3. fgt ([Fin 3, Fin 1, Fin 2] ! j) NINF_SCORE \<longrightarrow> (\<forall>i<j. [10, 11, 12 :: int] ! i \<noteq> [10, 11, 12] ! j)"
    by (auto simp: less_Suc_eq numeral_3_eq_3)
  have "\<exists>top_ids top_scores top.
           select_acquisition_batch_indices argsort_partition 1 [Fin 3, Fin 1, Fin 2] [10, 11, 12 :: int] [11]
              = Inr (top_ids, top_scores)
         \<and> int (length top_ids) = 1
         \<and> set top_ids \<inter> set [11] = {}
         \<and> (\<forall>j<length [10, 11, 12 :: int]. [10, 11, 12 :: int] ! j \<notin> set top_ids \<longrightarrow>
               (\<forall>s\<in>set top_scores.
                  fle (if [10, 11, 12 :: int] ! j \<in> set [11] then NINF_SCORE else [Fin 3, Fin 1, Fin 2] ! j) s))
         \<and> top_ids = map (\<lambda>i. [10, 11, 12 :: int] ! i) top
         \<and> top_scores = map (\<lambda>i. [Fin 3, Fin 1, Fin 2] ! i) top
         \<and> distinct top \<and> set top \<subseteq> {0..<length [10, 11, 12 :: int]}
         \<and> distinct top_ids
         \<and> (\<forall>i\<in>set top. fgt ([Fin 3, Fin 1, Fin 2] ! i) NINF_SCORE)
         \<and> (\<forall>j<length [10, 11, 12 :: int]. j \<notin> set top \<longrightarrow>
               (\<forall>i\<in>set top.
                  fle (if [10, 11, 12 :: int] ! j \<in> set [11] then NINF_SCORE else [Fin 3, Fin 1, Fin 2] ! j)
                      ([Fin 3, Fin 1, Fin 2] ! i)))"
    by (rule select_top_k[OF argsort_partition_contract])
       (use a in \<open>auto simp: u fgt_def NINF_SCORE_def intro: exI[of _ 0]\<close>)
  then obtain top_ids top_scores top where
    r: "select_acquisition_batch_indices argsort_partition 1 [Fin 3, Fin 1, Fin 2] [10, 11, 12 :: int] [11]
              = Inr (top_ids, top_scores)"
    and l: "int (length top_ids) = 1" and d: "set top_ids \<inter> set [11] = {}"
    and ti: "top_ids = map (\<lambda>i. [10, 11, 12 :: int] ! i) top"
    and ts: "top_scores = map (\<lambda>i. [Fin 3, Fin 1, Fin 2] ! i) top"
    and dt: "distinct top_ids"
    and st: "set top \<subseteq> {0..<length [10, 11, 12 :: int]}"
    and o: "\<forall>j<length [10, 11, 12 :: int]. j \<notin> set top \<longrightarrow>
               (\<forall>i\<in>set top.
                  fle (if [10, 11, 12 :: int] ! j \<in> set [11] then NINF_SCORE else [Fin 3, Fin 1, Fin 2] ! j)
                      ([Fin 3, Fin 1, Fin 2] ! i))"
    by blast
  have e: "select_acquisition_batch_indices argsort_partition 1 [Fin 3, Fin 1, Fin 2] [10, 11, 12 :: int] [11]
             = Inr ([10], [Fin 3])"
    by (simp add: select_acquisition_batch_indices_def np_argpartition_def fgt_def NINF_SCORE_def
       argsort_partition_def py_slice_to_def upt_rec)
  from r e have t1: "top_ids = [10]" and t2: "top_scores = [Fin 3]" by simp_all
  from t1 ti l st have t3: "top = [0]"
    by (cases top) (auto simp: nth_Cons split: nat.splits)
  from o t3 have f1: "fle (Fin 2) (Fin 3)" and f2: "fle NINF_SCORE (Fin 3)"
    by (auto dest: spec[of _ 2] spec[of _ 1])
  show ?thesis
    apply (rule exI[of _ top_ids])
    apply (rule exI[of _ top_scores])
    apply (rule exI[of _ top])
    apply (intro conjI)
    subgoal by (rule r)
    subgoal by (rule t1)
    subgoal by (rule t2)
    subgoal by (rule t3)
    subgoal by (rule l)
    subgoal by (rule d)
    subgoal by (rule ti)
    subgoal by (rule ts)
    subgoal by (rule dt)
    subgoal by (rule f1)
    subgoal by (rule f2)
    done
qed

text \<open>
  Without the extra conditions the property fails: a batch as large as the pool is
  rejected by \<^verbatim>\<open>np.argpartition\<close>; a pool without any score above \<open>-inf\<close> is
  rejected by the statistics line; an ignored id whose first occurrence is a padding
  entry is selected again; an unselected NaN score is not \<open>\<le>\<close> anything.
\<close>

theorem select_top_k_counterexample:
  "int (length (filter (\<lambda>j. [0 :: int] ! j \<notin> set [] \<and> fgt ([Fin 1] ! j) NINF_SCORE) [0..<length [0 :: int]])) = 1
   \<and> select_acquisition_batch_indices argsort_partition 1 [Fin 1] [0] [] = Inl ValueError
   \<and> select_acquisition_batch_indices argsort_partition 0 [NInf] [0] [] = Inl ValueError
   \<and> select_acquisition_batch_indices argsort_partition 1
         [NInf, Fin (9/10), Fin (1/2), Fin (1/10)] [7, 7, 8, 9] [7] = Inr ([7], [Fin (9/10)])
   \<and> select_acquisition_batch_indices argsort_partition 1 [Fin 1, NaN] [0, 1] [] = Inr ([0], [Fin 1])
   \<and> \<not> fle NaN (Fin 1)"
  by (simp add: select_acquisition_batch_indices_def np_argpartition_def fgt_def NINF_SCORE_def
       argsort_partition_def py_slice_to_def upt_rec fle_def fge_def)

text \<open>
  Claim C2 (ignored ids). For aligned scores and ids: when every ignored id occurs in
  ids, the loop succeeds, the score at the first position of each ignored id is
  \<open>-inf\<close> and the scores of all other ids are unchanged; when some ignored id does not
  occur in ids, the call fails with ValueError (raised by \<^verbatim>\<open>ids_list.index\<close>).
\<close>

theorem ignored_ids_forced:
  "length scores = length ids \<Longrightarrow>
   (set ignored_ids \<subseteq> set ids \<longrightarrow>
      (\<exists>scores'. ignore_ids ids ignored_ids scores = Inr scores'
         \<and> length scores' = length scores
         \<and> (\<forall>x\<in>set ignored_ids. \<exists>i. list_index ids x = Some i \<and> scores' ! i = NINF_SCORE)
         \<and> (\<forall>j<length ids. ids ! j \<notin> set ignored_ids \<longrightarrow> scores' ! j = scores ! j)))
   \<and> (\<not> set ignored_ids \<subseteq> set ids \<longrightarrow>
        select_acquisition_batch_indices sel k scores ids ignored_ids = Inl ValueError)"
proof (intro conjI impI)
  assume len: "length scores = length ids" and sub: "set ignored_ids \<subseteq> set ids"
  let ?f = "forced_scores ids (set ignored_ids) scores"
  have "\<exists>i. list_index ids x = Some i \<and> ?f ! i = NINF_SCORE" if "x \<in> set ignored_ids" for x
  proof -
    from that sub have "x \<in> set ids" by blast
    then obtain i where i: "list_index ids x = Some i"
      using list_index_None[of ids x] by (cases "list_index ids x") auto
    from list_index_Some[OF i] that len have "?f ! i = NINF_SCORE"
      by (simp add: forced_scores_nth)
    with i show ?thesis by blast
  qed
  moreover have "?f ! j = scores ! j" if "j < length ids" "ids ! j \<notin> set ignored_ids" for j
    using that len by (simp add: forced_scores_nth)
  ultimately show "\<exists>scores'. ignore_ids ids ignored_ids scores = Inr scores'
         \<and> length scores' = length scores
         \<and> (\<forall>x\<in>set ignored_ids. \<exists>i. list_index ids x = Some i \<and> scores' ! i = NINF_SCORE)
         \<and> (\<forall>j<length ids. ids ! j \<notin> set ignored_ids \<longrightarrow> scores' ! j = scores ! j)"
    using ignore_ids_closed[OF len sub] by (auto simp: forced_scores_length)
next
  assume "length scores = length ids" "\<not> set ignored_ids \<subseteq> set ids"
  then show "select_acquisition_batch_indices sel k scores ids ignored_ids = Inl ValueError"
    by (simp add: select_acquisition_batch_indices_def ignore_ids_absent)
qed

theorem ignored_ids_forced_witness:
  "length [Fin 1, Fin 2] = length [7, 8 :: int]
   \<and> (set [8] \<subseteq> set [7, 8 :: int] \<and>
      (\<exists>scores'. ignore_ids [7, 8] [8] [Fin 1, Fin 2] = Inr scores'
         \<and> length scores' = length [Fin 1, Fin 2]
         \<and> (\<forall>x\<in>set [8]. \<exists>i. list_index [7, 8 :: int] x = Some i \<and> scores' ! i = NINF_SCORE)
         \<and> (\<forall>j<length [7, 8 :: int]. [7, 8 :: int] ! j \<notin> set [8] \<longrightarrow> scores' ! j = [Fin 1, Fin 2] ! j)))
   \<and> (\<not> set [9] \<subseteq> set [7, 8 :: int]
       \<and> select_acquisition_batch_indices argsort_partition 1 [Fin 1, Fin 2] [7, 8] [9] = Inl ValueError)"
  using ignored_ids_forced[of "[Fin 1, Fin 2]" "[7, 8]" "[8]" argsort_partition 1]
        ignored_ids_forced[of "[Fin 1, Fin 2]" "[7, 8]" "[9]" argsort_partition 1]
  by simp

text \<open>An ignored id that is absent from ids is not skipped: the call fails.\<close>

theorem absent_ignored_id_counterexample:
  "select_acquisition_batch_indices argsort_partition 1 [Fin 1, Fin 2] [0, 1] [5] = Inl ValueError"
  by (simp add: select_acquisition_batch_indices_def)

text \<open>
  Claim C9 (determinism). The result of a call is a function of its arguments, and of
  \<open>ignored_ids\<close> only the set of its elements matters: of two calls with the same batch
  size, scores and ids whose ignored ids are the same set, in whatever order Python
  iterates over it, the second returns the ids and scores that the first returns; for
  scores and ids of the same length the two calls also fail alike.
\<close>

theorem select_deterministic:
  "set ignored_ids1 = set ignored_ids2 \<Longrightarrow>
   (select_acquisition_batch_indices sel k scores ids ignored_ids1 = Inr r \<longrightarrow>
      select_acquisition_batch_indices sel k scores ids ignored_ids2 = Inr r)
   \<and> (length scores = length ids \<longrightarrow>
        select_acquisition_batch_indices sel k scores ids ignored_ids1
          = select_acquisition_batch_indices sel k scores ids ignored_ids2)"
proof (intro conjI impI)
  assume eq: "set ignored_ids1 = set ignored_ids2"
    and r: "select_acquisition_batch_indices sel k scores ids ignored_ids1 = Inr r"
  from r obtain s where s: "ignore_ids ids ignored_ids1 scores = Inr s"
    by (cases "ignore_ids ids ignored_ids1 scores")
       (auto simp: select_acquisition_batch_indices_def)
  from ignore_ids_Inr_set[OF eq s] s r
  show "select_acquisition_batch_indices sel k scores ids ignored_ids2 = Inr r"
    by (simp add: select_acquisition_batch_indices_def)
next
  assume eq: "set ignored_ids1 = set ignored_ids2" and len: "length scores = length ids"
  have "ignore_ids ids ignored_ids1 scores = ignore_ids ids ignored_ids2 scores"
  proof (cases "set ignored_ids1 \<subseteq> set ids")
    case True
    with eq ignore_ids_closed[OF len, of ignored_ids1] ignore_ids_closed[OF len, of ignored_ids2]
    show ?thesis by simp
  next
    case False
    with eq ignore_ids_absent[OF len, of ignored_ids1] ignore_ids_absent[OF len, of ignored_ids2]
    show ?thesis by simp
  qed
  then show "select_acquisition_batch_indices sel k scores ids ignored_ids1
          = select_acquisition_batch_indices sel k scores ids ignored_ids2"
    by (simp add: select_acquisition_batch_indices_def)
qed

theorem select_deterministic_witness:
  "set [11, 10] = set [10, 11, 10 :: int]
   \<and> select_acquisition_batch_indices argsort_partition 1 [Fin 3, Fin 1, Fin 2] [10, 11, 12] [11, 10]
       = Inr ([12], [Fin 2])
   \<and> select_acquisition_batch_indices argsort_partition 1 [Fin 3, Fin 1, Fin 2] [10, 11, 12] [10, 11, 10]
       = Inr ([12], [Fin 2])
   \<and> length [Fin 3, Fin 1, Fin 2] = length [10, 11, 12 :: int]
   \<and> select_acquisition_batch_indices argsort_partition 1 [Fin 3, Fin 1, Fin 2] [10, 11, 12] [11, 10]
     = select_acquisition_batch_indices argsort_partition 1 [Fin 3, Fin 1, Fin 2] [10, 11, 12] [10, 11, 10]"
proof -
  have s: "set [11, 10] = set [10, 11, 10 :: int]" by auto
  have l: "length [Fin 3, Fin 1, Fin 2] = length [10, 11, 12 :: int]" by simp
  note t = select_deterministic[OF s, of argsort_partition 1 "[Fin 3, Fin 1, Fin 2]" "[10, 11, 12]"
             "([12], [Fin 2])"]
  from t select_example
  have b: "select_acquisition_batch_indices argsort_partition 1 [Fin 3, Fin 1, Fin 2] [10, 11, 12]
             [10, 11, 10] = Inr ([12], [Fin 2])"
    by blast
  from t l
  have e: "select_acquisition_batch_indices argsort_partition 1 [Fin 3, Fin 1, Fin 2] [10, 11, 12] [11, 10]
     = select_acquisition_batch_indices argsort_partition 1 [Fin 3, Fin 1, Fin 2] [10, 11, 12] [10, 11, 10]"
    by blast
  from s select_example b l e show ?thesis by blast
qed

section \<open>Proofs: the scoring functions\<close>

lemma np_key_inj: "np_key a = np_key b \<Longrightarrow> a = b"
  by (cases a; cases b) auto

lemma jnp_where_aligned:
  "length masks = length xs \<Longrightarrow> jnp_where masks xs c = Inr out \<Longrightarrow>
   length out = length masks \<and> (\<forall>i<length masks. \<not> masks ! i \<longrightarrow> out ! i = c)
   \<and> (\<forall>i<length masks. masks ! i \<longrightarrow> out ! i = xs ! i)"
  by (auto simp: jnp_where_def)

lemma jnp_where_total:
  "length masks = length xs \<Longrightarrow> \<exists>out. jnp_where masks xs c = Inr out"
  by (simp add: jnp_where_def)

lemma collect_Inr:
  "collect rs = Inr xs \<Longrightarrow> length xs = length rs \<and> (\<forall>i<length rs. rs ! i = Inr (xs ! i))"
proof (induction rs arbitrary: xs rule: collect.induct)
  case 1
  then show ?case by simp
next
  case (2 e rs)
  then show ?case by simp
next
  case (3 x rs)
  then obtain ys where ys: "collect rs = Inr ys" "xs = x # ys"
    by (auto split: sum.splits)
  from 3(1)[OF ys(1)] ys(2) show ?case
    by (auto simp: nth_Cons split: nat.splits)
qed

lemma collect_total:
  "(\<forall>r\<in>set rs. \<exists>x. r = Inr x) \<Longrightarrow> \<exists>xs. collect rs = Inr xs"
proof (induction rs rule: collect.induct)
  case 1
  then show ?case by simp
next
  case (2 e rs)
  then show ?case by simp
next
  case (3 x rs)
  then show ?case by (auto split: sum.splits)
qed

lemma jnp_argsort_props:
  "distinct (jnp_argsort row)" "set (jnp_argsort row) = {0..<length row}"
  "length (jnp_argsort row) = length row"
  "sorted (map (\<lambda>i. np_key (row ! i)) (jnp_argsort row))"
  by (simp_all add: jnp_argsort_def)

lemma margin_of_row_top2:
  assumes n2: "2 \<le> length (softmax L row)"
  shows "\<exists>a b. a < length (softmax L row) \<and> b < length (softmax L row) \<and> a \<noteq> b
       \<and> (\<forall>l<length (softmax L row). np_key (softmax L row ! l) \<le> np_key (softmax L row ! a))
       \<and> (\<forall>l<length (softmax L row). l \<noteq> a \<longrightarrow> np_key (softmax L row ! l) \<le> np_key (softmax L row ! b))
       \<and> margin_of_row L row = Inr (fneg (fsub L (softmax L row ! a) (softmax L row ! b)))"
proof -
  define p where "p = softmax L row"
  define q where "q = jnp_argsort p"
  define n where "n = length p"
  note qs = jnp_argsort_props[of p, folded q_def]
  have n: "2 \<le> n" using n2 by (simp add: n_def p_def)
  have lq: "length q = n" using qs(3) by (simp add: n_def)
  define a where "a = q ! (n - 1)"
  define b where "b = q ! (n - 2)"
  have mono: "np_key (p ! (q ! i)) \<le> np_key (p ! (q ! j))" if "i \<le> j" "j < n" for i j
    using sorted_nth_mono[OF qs(4), of i j] that lq by simp
  have an: "a < n" and bn: "b < n"
    using qs(2) lq n nth_mem[of "n - 1" q] nth_mem[of "n - 2" q]
    by (auto simp: a_def b_def n_def)
  have ab: "a \<noteq> b"
    using qs(1) lq n by (auto simp: a_def b_def distinct_conv_nth)
  have pos: "\<exists>m<n. l = q ! m" if "l < n" for l
    using that qs(2) lq by (metis atLeastLessThan_iff in_set_conv_nth n_def zero_le)
  have maxa: "np_key (p ! l) \<le> np_key (p ! a)" if "l < n" for l
  proof -
    from pos[OF that] obtain m where m: "m < n" "l = q ! m" by blast
    then show ?thesis using mono[of m "n - 1"] n by (simp add: a_def)
  qed
  have maxb: "np_key (p ! l) \<le> np_key (p ! b)" if "l < n" "l \<noteq> a" for l
  proof -
    from pos[OF that(1)] obtain m where m: "m < n" "l = q ! m" by blast
    with that(2) have "m \<noteq> n - 1" by (auto simp: a_def)
    with m(1) have "m \<le> n - 2" by simp
    then show ?thesis using mono[of m "n - 2"] n m(2) by (simp add: b_def)
  qed
  let ?s = "map (\<lambda>i. p ! i) q"
  have ne: "?s \<noteq> []" using lq n by auto
  have i1: "jnp_index ?s (- 1) = Inr (p ! a)"
    using ne lq n by (simp add: jnp_index_def Let_def a_def nat_diff_distrib' min_def max_def)
  have "nat (int n - 2) = n - 2" using n by simp
  then have i2: "jnp_index ?s (- 2) = Inr (p ! b)"
    using ne lq n by (simp add: jnp_index_def Let_def b_def min_def max_def)
  have "margin_of_row L row = Inr (fneg (fsub L (p ! a) (p ! b)))"
    using i1 i2 by (simp add: margin_of_row_def Let_def p_def[symmetric] q_def[symmetric])
  with an bn ab maxa maxb show ?thesis
    unfolding p_def[symmetric] n_def[symmetric] by blast
qed


lemma fneg_nonneg_not_pos: "fge d (Fin 0) \<Longrightarrow> \<not> fgt (fneg d) (Fin 0)"
  by (cases d) (auto simp: fge_def fgt_def)

lemma exact_lib_ieee: "ieee_float_lib exact_lib"
  by (auto simp: ieee_float_lib_def exact_lib_def fge_def exact_softmax_def)

lemma get_margin_scores_row:
  assumes len: "length masks = length logits"
    and rows: "\<forall>r\<in>set logits. 2 \<le> length (softmax L r)"
  shows "\<exists>out. get_margin_scores L logits masks = Inr out \<and> length out = length logits
           \<and> (\<forall>i<length logits. masks ! i \<longrightarrow> margin_of_row L (logits ! i) = Inr (out ! i))"
proof -
  have "\<forall>r\<in>set (map (margin_of_row L) logits). \<exists>x. r = Inr x"
    using rows margin_of_row_top2[of L] by fastforce
  from collect_total[OF this] obtain ms where ms: "collect (map (margin_of_row L) logits) = Inr ms"
    by blast
  note c = collect_Inr[OF ms]
  then have lms: "length masks = length ms" using len by simp
  from jnp_where_total[OF lms] obtain out where out: "jnp_where masks ms NINF_SCORE = Inr out"
    by blast
  note w = jnp_where_aligned[OF lms out]
  have "get_margin_scores L logits masks = Inr out"
    using ms out by (simp add: get_margin_scores_def)
  moreover have "margin_of_row L (logits ! i) = Inr (out ! i)" if "i < length logits" "masks ! i" for i
    using that c w len by simp
  ultimately show ?thesis using w len by auto
qed


lemma get_entropy_scores_masked:
  "length masks = length logits \<Longrightarrow> get_entropy_scores L logits masks = Inr out \<Longrightarrow>
   length out = length masks \<and> (\<forall>i<length masks. \<not> masks ! i \<longrightarrow> out ! i = NINF_SCORE)"
  using jnp_where_aligned[of masks "map (entropy_of_row L) logits" NINF_SCORE out]
  by (simp add: get_entropy_scores_def)

lemma get_margin_scores_masked:
  assumes "length masks = length logits" "get_margin_scores L logits masks = Inr out"
  shows "length out = length masks \<and> (\<forall>i<length masks. \<not> masks ! i \<longrightarrow> out ! i = NINF_SCORE)"
proof -
  from assms(2) obtain ms where ms: "collect (map (margin_of_row L) logits) = Inr ms"
    and out: "jnp_where masks ms NINF_SCORE = Inr out"
    by (auto simp: get_margin_scores_def split: sum.splits)
  from collect_Inr[OF ms] assms(1) have "length masks = length ms" by simp
  from jnp_where_aligned[OF this out] show ?thesis by blast
qed

lemma get_uniform_scores_masked:
  "length (get_uniform_scores uniform masks rng) = length masks
   \<and> (\<forall>i<length masks. \<not> masks ! i \<longrightarrow> get_uniform_scores uniform masks rng ! i = NINF_SCORE)"
  by (simp add: get_uniform_scores_def)

lemma get_density_scores_masked:
  assumes "get_density_scores L lda fwd opt_repl train_ds pool_pre_logits pool_masks = Inr out"
  shows "length out = length pool_masks
         \<and> (\<forall>i<length pool_masks. \<not> pool_masks ! i \<longrightarrow> out ! i = NINF_SCORE)"
  using assms
  by (auto simp: get_density_scores_def Let_def split: sum.splits prod.splits if_splits)

lemma margin_example: "get_margin_scores exact_lib [[Fin 0, Fin 0], [Fin 0, Fin 0]] [True, False] = Inr [Fin 0, NInf]"
  by (simp add: get_margin_scores_def margin_of_row_def exact_lib_def exact_softmax_def
        softmax_defined_def jnp_argsort_def jnp_index_def jnp_where_def NINF_SCORE_def upt_rec)

lemma density_example: "get_density_scores exact_lib (\<lambda>tr lab pool. map (\<lambda>row. row ! 0) pool)
             (\<lambda>opt pre img. [Fin img]) () [[\<lparr>ex_id = 0, ex_image = 1, ex_labels = [Fin 1], ex_mask = True\<rparr>]]
             [[Fin 2], [Fin 5], [Fin 3]] [True, False, True] = Inr [Fin 1, NInf, Fin 0]"
  by (simp add: get_density_scores_def get_ids_logits_masks_def exact_lib_def np_max_def NINF_SCORE_def)

lemma entropy_example: "get_entropy_scores exact_lib [[Fin 0, Fin 0], [Fin 0, Fin 0]] [True, False] = Inr [Fin (ln 2), NInf]"
  by (simp add: get_entropy_scores_def entropy_of_row_def exact_lib_def exact_softmax_def exact_log_softmax_def
        softmax_defined_def jnp_where_def NINF_SCORE_def isnan_def)

lemma uniform_example: "get_uniform_scores (\<lambda>rng i. Fin (1 / (2 + real i))) [True, False, True] () = [Fin (1/2), NInf, Fin (1/4)]"
  by (simp add: get_uniform_scores_def NINF_SCORE_def upt_rec)















subsection \<open>Claims about the scoring functions\<close>



text \<open>
  Claim C4 (margin score). For float operations as IEEE defines them, aligned masks
  and logits, and rows of at least two classes: the score of a row with a true mask is
  the negation of the difference between its largest softmax probability (position
  \<open>a\<close>) and its second largest (position \<open>b\<close>, the largest of the others); when
  the two are the same finite number the score is exactly 0; and no score exceeds 0.
\<close>

theorem margin_scores_top2:
  assumes "ieee_float_lib L"
    and "length masks = length logits"
    and "i < length logits" and "masks ! i"
    and "\<forall>r\<in>set logits. 2 \<le> length (softmax L r)"
  shows "\<exists>out a b.
           get_margin_scores L logits masks = Inr out
         \<and> a < length (softmax L (logits ! i)) \<and> b < length (softmax L (logits ! i)) \<and> a \<noteq> b
         \<and> (\<forall>l<length (softmax L (logits ! i)).
               np_key (softmax L (logits ! i) ! l) \<le> np_key (softmax L (logits ! i) ! a))
         \<and> (\<forall>l<length (softmax L (logits ! i)). l \<noteq> a \<longrightarrow>
               np_key (softmax L (logits ! i) ! l) \<le> np_key (softmax L (logits ! i) ! b))
         \<and> out ! i = fneg (fsub L (softmax L (logits ! i) ! a) (softmax L (logits ! i) ! b))
         \<and> (\<forall>x. softmax L (logits ! i) ! a = Fin x \<and> softmax L (logits ! i) ! b = Fin x
                \<longrightarrow> out ! i = Fin 0)
         \<and> \<not> fgt (out ! i) (Fin 0)"
proof -
  define p where "p = softmax L (logits ! i)"
  from get_margin_scores_row[OF assms(2,5)] assms(3,4)
  obtain out where out: "get_margin_scores L logits masks = Inr out"
    and oi: "margin_of_row L (logits ! i) = Inr (out ! i)"
    by blast
  have "2 \<le> length (softmax L (logits ! i))" using assms(3,5) by simp
  from margin_of_row_top2[OF this, folded p_def]
  obtain a b where ab: "a < length p" "b < length p" "a \<noteq> b"
    and maxa: "\<forall>l<length p. np_key (p ! l) \<le> np_key (p ! a)"
    and maxb: "\<forall>l<length p. l \<noteq> a \<longrightarrow> np_key (p ! l) \<le> np_key (p ! b)"
    and m: "margin_of_row L (logits ! i) = Inr (fneg (fsub L (p ! a) (p ! b)))"
    by blast
  from oi m have val: "out ! i = fneg (fsub L (p ! a) (p ! b))" by simp
  from assms(1) have sub0: "\<And>x. fsub L (Fin x) (Fin x) = Fin 0"
    and subge: "\<And>x y. y \<le> x \<Longrightarrow> fge (fsub L (Fin x) (Fin y)) (Fin 0)"
    and subnan: "\<And>y. fsub L NaN y = NaN"
    and range: "\<And>v. v \<in> set p \<Longrightarrow> v = NaN \<or> (\<exists>x. v = Fin x)"
    by (auto simp: ieee_float_lib_def p_def)
  have zero: "out ! i = Fin 0" if "p ! a = Fin x \<and> p ! b = Fin x" for x
    using that val sub0 by simp
  have top: "\<not> fgt (out ! i) (Fin 0)"
  proof (cases "p ! a = NaN")
    case True
    then show ?thesis using val subnan by (simp add: fgt_def)
  next
    case False
    with range[of "p ! a"] ab(1) obtain x where x: "p ! a = Fin x" by auto
    from maxa ab(2) x have le: "np_key (p ! b) \<le> (1, x)" by fastforce
    from range[of "p ! b"] ab(2) have "p ! b = NaN \<or> (\<exists>y. p ! b = Fin y)" by simp
    with le obtain y where y: "p ! b = Fin y" "y \<le> x" by auto
    from subge[OF y(2)] show ?thesis
      unfolding val x y(1) by (rule fneg_nonneg_not_pos)
  qed
  from out ab maxa maxb val zero top show ?thesis
    unfolding p_def by blast
qed

theorem margin_scores_top2_witness:
  "\<exists>out a b.
     get_margin_scores exact_lib [[Fin 0, Fin 0]] [True] = Inr out
   \<and> a < length (softmax exact_lib ([[Fin 0, Fin 0]] ! 0))
   \<and> b < length (softmax exact_lib ([[Fin 0, Fin 0]] ! 0)) \<and> a \<noteq> b
   \<and> (\<forall>l<length (softmax exact_lib ([[Fin 0, Fin 0]] ! 0)).
         np_key (softmax exact_lib ([[Fin 0, Fin 0]] ! 0) ! l)
           \<le> np_key (softmax exact_lib ([[Fin 0, Fin 0]] ! 0) ! a))
   \<and> (\<forall>l<length (softmax exact_lib ([[Fin 0, Fin 0]] ! 0)). l \<noteq> a \<longrightarrow>
         np_key (softmax exact_lib ([[Fin 0, Fin 0]] ! 0) ! l)
           \<le> np_key (softmax exact_lib ([[Fin 0, Fin 0]] ! 0) ! b))
   \<and> out ! 0 = fneg (fsub exact_lib (softmax exact_lib ([[Fin 0, Fin 0]] ! 0) ! a)
                                     (softmax exact_lib ([[Fin 0, Fin 0]] ! 0) ! b))
   \<and> (\<forall>x. softmax exact_lib ([[Fin 0, Fin 0]] ! 0) ! a = Fin x
          \<and> softmax exact_lib ([[Fin 0, Fin 0]] ! 0) ! b = Fin x \<longrightarrow> out ! 0 = Fin 0)
   \<and> \<not> fgt (out ! 0) (Fin 0)"
  by (rule margin_scores_top2[OF exact_lib_ieee])
     (simp_all add: exact_lib_def exact_softmax_def)


text \<open>
  Claim C5 (masked entries). Every score array that the entropy, margin, uniform or
  density scoring produces (for entropy and margin: from masks aligned with the logits)
  has one entry per mask, and every entry whose mask is false is exactly \<open>-inf\<close>.
\<close>

theorem masked_scores_are_ninf:
  "(length masks = length logits \<longrightarrow> get_entropy_scores L logits masks = Inr out_e \<longrightarrow>
      length out_e = length masks \<and> (\<forall>i<length masks. \<not> masks ! i \<longrightarrow> out_e ! i = NINF_SCORE))
   \<and> (length masks = length logits \<longrightarrow> get_margin_scores L logits masks = Inr out_m \<longrightarrow>
      length out_m = length masks \<and> (\<forall>i<length masks. \<not> masks ! i \<longrightarrow> out_m ! i = NINF_SCORE))
   \<and> (length (get_uniform_scores uniform masks rng) = length masks
      \<and> (\<forall>i<length masks. \<not> masks ! i \<longrightarrow> get_uniform_scores uniform masks rng ! i = NINF_SCORE))
   \<and> (get_density_scores L lda fwd opt_repl train_ds pool_pre_logits pool_masks = Inr out_d \<longrightarrow>
      length out_d = length pool_masks
      \<and> (\<forall>i<length pool_masks. \<not> pool_masks ! i \<longrightarrow> out_d ! i = NINF_SCORE))"
  using get_entropy_scores_masked[of masks logits L out_e]
        get_margin_scores_masked[of masks logits L out_m]
        get_uniform_scores_masked[of uniform masks rng]
        get_density_scores_masked[of L lda fwd opt_repl train_ds pool_pre_logits pool_masks out_d]
  by blast


theorem masked_scores_are_ninf_witness:
  "(length [True, False] = length [[Fin 0, Fin 0], [Fin 0, Fin 0]]
    \<and> get_entropy_scores exact_lib [[Fin 0, Fin 0], [Fin 0, Fin 0]] [True, False] = Inr [Fin (ln 2), NInf]
    \<and> \<not> [True, False] ! 1 \<and> [Fin (ln 2), NInf] ! 1 = NINF_SCORE)
   \<and> (get_margin_scores exact_lib [[Fin 0, Fin 0], [Fin 0, Fin 0]] [True, False] = Inr [Fin 0, NInf]
    \<and> [Fin 0, NInf] ! 1 = NINF_SCORE)
   \<and> get_uniform_scores (\<lambda>rng i. Fin (1 / (2 + real i))) [True, False] () ! 1 = NINF_SCORE
   \<and> (get_density_scores exact_lib (\<lambda>tr lab pool. map (\<lambda>row. row ! 0) pool)
         (\<lambda>opt pre img. [Fin img]) () [[\<lparr>ex_id = 0, ex_image = 1, ex_labels = [Fin 1], ex_mask = True\<rparr>]]
         [[Fin 2], [Fin 5], [Fin 3]] [True, False, True] = Inr [Fin 1, NInf, Fin 0]
    \<and> \<not> [True, False, True] ! 1 \<and> [Fin 1, NInf, Fin 0] ! 1 = NINF_SCORE)"
proof -
  note t = masked_scores_are_ninf[of "[True, False]" "[[Fin 0, Fin 0], [Fin 0, Fin 0]]" exact_lib
          "[Fin (ln 2), NInf]" "[Fin 0, NInf]" "\<lambda>rng i. Fin (1 / (2 + real i))" "()"
          "\<lambda>tr lab pool. map (\<lambda>row. row ! 0) pool" "\<lambda>opt pre img. [Fin img]" "()"
          "[[\<lparr>ex_id = 0, ex_image = 1, ex_labels = [Fin 1], ex_mask = True\<rparr>]]"
          "[[Fin 2], [Fin 5], [Fin 3]]" "[True, False, True]" "[Fin 1, NInf, Fin 0]"]
  have m1: "\<not> [True, False] ! 1" and m2: "\<not> [True, False, True] ! 1" by simp_all
  have l: "length [True, False] = length [[Fin 0, Fin 0], [Fin 0, Fin 0]]" by simp
  from t entropy_example l m1 have "[Fin (ln 2), NInf] ! 1 = NINF_SCORE" by force
  moreover from t margin_example l m1 have "[Fin 0, NInf] ! 1 = NINF_SCORE" by force
  moreover from t m1
  have "get_uniform_scores (\<lambda>rng i. Fin (1 / (2 + real i))) [True, False] () ! 1 = NINF_SCORE"
    by force
  moreover from t density_example m2 have "[Fin 1, NInf, Fin 0] ! 1 = NINF_SCORE" by force
  ultimately show ?thesis
    using entropy_example margin_example density_example by simp
qed

section \<open>Proofs: the fine-tune loop\<close>

lemma finetune_loop_Cons:
  "finetune_loop L update_fn evaluation_fn train_eval_ds val_ds p (step # rest) s =
     (case finetune_step L update_fn evaluation_fn train_eval_ds val_ds p step s of
        (s', stop) \<Rightarrow> if stop then s'
                      else finetune_loop L update_fn evaluation_fn train_eval_ds val_ds p rest s')"
proof -
  obtain current_step train_batch lr_repl where st: "step = (current_step, train_batch, lr_repl)"
    by (cases step)
  obtain opt rng where u: "update_fn (st_opt_repl s) lr_repl train_batch (st_rngs_loop s) = (opt, rng)"
    by (cases "update_fn (st_opt_repl s) lr_repl train_batch (st_rngs_loop s)")
  show ?thesis
    unfolding st by (simp add: finetune_step_def Let_def u)
qed

lemma fge_trans: "fge a b \<Longrightarrow> fge b c \<Longrightarrow> fge a c"
  by (auto simp: fge_def)

lemma finetune_step_inv:
  assumes "ft_inv s"
    and "finetune_step L update_fn evaluation_fn train_eval_ds val_ds p step s = (s', stop)"
  shows "ft_inv s'"
proof -
  obtain current_step train_batch lr_repl where st: "step = (current_step, train_batch, lr_repl)"
    by (cases step)
  obtain opt rng where u: "update_fn (st_opt_repl s) lr_repl train_batch (st_rngs_loop s) = (opt, rng)"
    by (cases "update_fn (st_opt_repl s) lr_repl train_batch (st_rngs_loop s)")
  show ?thesis
  proof (cases "current_step mod 5 = 0 \<and> fge (get_accuracy L evaluation_fn opt val_ds) (st_best_opt_accuracy s)")
    case True
    then have "fge (get_accuracy L evaluation_fn opt val_ds) (Fin (- 1))"
      using assms(1) fge_trans by (auto simp: ft_inv_def)
    with True assms st u show ?thesis
      by (auto simp: finetune_step_def ft_inv_def Let_def)
  next
    case False
    with assms st u show ?thesis
      by (auto simp: finetune_step_def ft_inv_def Let_def split: if_splits)
  qed
qed

lemma finetune_loop_inv:
  "ft_inv s \<Longrightarrow> ft_inv (finetune_loop L update_fn evaluation_fn train_eval_ds val_ds p steps s)"
proof (induction steps arbitrary: s)
  case Nil
  then show ?case by simp
next
  case (Cons step rest)
  obtain s' stop where ss: "finetune_step L update_fn evaluation_fn train_eval_ds val_ds p step s = (s', stop)"
    by (cases "finetune_step L update_fn evaluation_fn train_eval_ds val_ds p step s")
  from finetune_step_inv[OF Cons.prems ss] have "ft_inv s'" .
  with Cons.IH[of s'] ss show ?case by (simp add: finetune_loop_Cons del: finetune_loop.simps)
qed

lemma finetune_loop_no_eval:
  "\<forall>step\<in>set steps. fst step mod 5 \<noteq> 0 \<Longrightarrow>
   st_best_opt_repl (finetune_loop L update_fn evaluation_fn train_eval_ds val_ds p steps s)
     = st_best_opt_repl s"
proof (induction steps arbitrary: s)
  case Nil
  then show ?case by simp
next
  case (Cons step rest)
  obtain current_step train_batch lr_repl where st: "step = (current_step, train_batch, lr_repl)"
    by (cases step)
  with Cons.prems have "current_step mod 5 \<noteq> 0" by simp
  with Cons st show ?case by (simp add: Let_def split: prod.splits)
qed


lemma upto_1_10: "[1..10::int] = [1, 2, 3, 4, 5, 6, 7, 8, 9, 10]"
  by (simp add: upto_rec1)

lemma upto_0_9: "[0..9::int] = [0, 1, 2, 3, 4, 5, 6, 7, 8, 9]"
  by (simp add: upto_rec1)

lemma take_10:
  assumes "10 \<le> length ds"
  shows "take 10 ds = [ds ! 0, ds ! 1, ds ! 2, ds ! 3, ds ! 4, ds ! 5, ds ! 6, ds ! 7, ds ! 8, ds ! 9]"
proof -
  have "take 10 ds = map (\<lambda>i. ds ! i) [0..<10]"
    using assms by (intro nth_equalityI) auto
  also have "[0..<10] = [0, 1, 2, 3, 4, 5, 6, 7, 8, 9]" by (simp add: upt_rec)
  finally show ?thesis by simp
qed

lemma steps_10:
  assumes "10 \<le> length ds"
  shows "zip [1..10] (zip ds (map lr_fn [0..10 - 1])) =
    [(1, ds ! 0, lr_fn 0), (2, ds ! 1, lr_fn 1), (3, ds ! 2, lr_fn 2), (4, ds ! 3, lr_fn 3),
     (5, ds ! 4, lr_fn 4), (6, ds ! 5, lr_fn 5), (7, ds ! 6, lr_fn 6), (8, ds ! 7, lr_fn 7),
     (9, ds ! 8, lr_fn 8), (10, ds ! 9, lr_fn 9)]"
proof -
  have "zip ds (map lr_fn [0..10 - 1]) = zip (take 10 ds @ drop 10 ds) (map lr_fn [0..10 - 1])"
    by simp
  also have "\<dots> = zip (take 10 ds) (map lr_fn [0..10 - 1])"
    by (subst zip_append1) (use assms in \<open>simp add: upto_0_9\<close>)
  finally show ?thesis by (simp add: take_10[OF assms] upto_1_10 upto_0_9)
qed


lemma flt_not_fge: "flt a b \<Longrightarrow> \<not> fge a b"
  by (auto simp: flt_def fgt_def fge_def)

lemma updates_Suc:
  "update_fn (fst (updates update_fn lr_fn ds opt_repl rngs_loop n)) (lr_fn (int n)) (ds ! n)
      (snd (updates update_fn lr_fn ds opt_repl rngs_loop n))
   = updates update_fn lr_fn ds opt_repl rngs_loop (Suc n)"
  by (simp add: case_prod_beta)

lemma finetune_run_nan_example:
  "st_val_accuracies (finetune_run exact_lib (\<lambda>opt lr batch rng. (opt + 1, rng + 1)) (0::nat)
      (\<lambda>step. ()) ([[], [], [], [], []] :: unit dataset) (0::nat) 5 [[]] []
      (\<lambda>opt batch. (Fin 1, Fin 1)) 2) = [(5, NaN)]"
  by (simp add: finetune_run_def upto_rec1 get_accuracy_def exact_lib_def fge_def Let_def)

subsection \<open>Claims about the fine-tune loop\<close>

text \<open>
  Claim C6 (early stopping). With \<open>total_steps = 10\<close>, a patience of 2 and at least ten
  training batches: when the validation accuracy after the fifth update is at least the
  initial \<open>-1\<close> and the one after the tenth update is strictly smaller, the loop runs
  all ten updates, evaluates at steps 5 and 10 only, breaks at step 10, and returns the
  snapshot of step 5 together with the rng after ten updates.
\<close>

theorem finetune_early_stopping:
  assumes len: "10 \<le> length ds"
    and u5: "updates update_fn lr_fn ds opt_repl rngs_loop 5 = (opt5, rng5)"
    and u10: "updates update_fn lr_fn ds opt_repl rngs_loop 10 = (opt10, rng10)"
    and a5: "fge (get_accuracy L evaluation_fn opt5 val_ds) (Fin (- 1))"
    and a10: "flt (get_accuracy L evaluation_fn opt10 val_ds) (get_accuracy L evaluation_fn opt5 val_ds)"
  shows "finetune L update_fn opt_repl lr_fn ds rngs_loop 10 train_eval_ds val_ds evaluation_fn 2 =
           Inr (opt5, rng10,
                \<lparr>best_val_accuracy = get_accuracy L evaluation_fn opt5 val_ds, best_step = 5,
                 train_accuracies = [(5, get_accuracy L evaluation_fn opt5 train_eval_ds),
                                     (10, get_accuracy L evaluation_fn opt10 train_eval_ds)],
                 val_accuracies = [(5, get_accuracy L evaluation_fn opt5 val_ds),
                                   (10, get_accuracy L evaluation_fn opt10 val_ds)]\<rparr>)"
proof -
  define o' where "o' k = fst (updates update_fn lr_fn ds opt_repl rngs_loop (nat k))" for k :: int
  define r where "r k = snd (updates update_fn lr_fn ds opt_repl rngs_loop (nat k))" for k :: int
  have st: "update_fn (o' k) (lr_fn k) (ds ! nat k) (r k) = (o' (k + 1), r (k + 1))" if "0 \<le> k" for k
    unfolding o'_def r_def using updates_Suc[of update_fn lr_fn ds opt_repl rngs_loop "nat k"] that
    by (simp add: nat_add_distrib)
  have o0: "o' 0 = opt_repl" and r0: "r 0 = rngs_loop" by (simp_all add: o'_def r_def)
  have o5: "o' 5 = opt5" and o10: "o' 10 = opt10" and r10: "r 10 = rng10"
    using u5 u10 by (simp_all add: o'_def r_def)
  note s = st[of 0, unfolded o0 r0, simplified] st[of 1, simplified] st[of 2, simplified]
    st[of 3, simplified] st[of 4, simplified] st[of 5, simplified] st[of 6, simplified]
    st[of 7, simplified] st[of 8, simplified] st[of 9, simplified]
  have a5': "fge (get_accuracy L evaluation_fn (o' 5) val_ds) (Fin (- 1))"
    using a5 by (simp add: o5)
  have nb: "\<not> fge (get_accuracy L evaluation_fn (o' 10) val_ds) (get_accuracy L evaluation_fn (o' 5) val_ds)"
    using a10 by (simp add: o5 o10 flt_not_fge)
  have "finetune_run L update_fn opt_repl lr_fn ds rngs_loop 10 train_eval_ds val_ds evaluation_fn 2 =
      \<lparr>st_opt_repl = o' 10, st_rngs_loop = r 10,
       st_best_opt_accuracy = get_accuracy L evaluation_fn (o' 5) val_ds, st_best_step = 5,
       st_best_opt_repl = Some (o' 5),
       st_train_accuracies = [(5, get_accuracy L evaluation_fn (o' 5) train_eval_ds),
                              (10, get_accuracy L evaluation_fn (o' 10) train_eval_ds)],
       st_val_accuracies = [(5, get_accuracy L evaluation_fn (o' 5) val_ds),
                            (10, get_accuracy L evaluation_fn (o' 10) val_ds)]\<rparr>"
    unfolding finetune_run_def steps_10[OF len]
    by (simp add: s Let_def a5' nb)
  then show ?thesis by (simp add: finetune_def o5 o10 r10)
qed

theorem finetune_early_stopping_witness:
  "finetune exact_lib (\<lambda>opt lr batch rng. (opt + 1, rng + 1)) (0::nat) (\<lambda>step. ())
      ([[], [], [], [], [], [], [], [], [], []] :: unit dataset) (0::nat) 10 [[]] [[]]
      (\<lambda>opt batch. (Fin (if opt \<le> 5 then real opt else 10 - real opt), Fin 10)) 2
   = Inr (5, 10, \<lparr>best_val_accuracy = Fin (1 / 2), best_step = 5,
                   train_accuracies = [(5, Fin (1 / 2)), (10, Fin 0)],
                   val_accuracies = [(5, Fin (1 / 2)), (10, Fin 0)]\<rparr>)"
proof -
  let ?u = "\<lambda>(opt::nat) (lr::unit) (batch::unit batch) (rng::nat). (opt + 1, rng + 1)"
  let ?ds = "[[], [], [], [], [], [], [], [], [], []] :: unit dataset"
  let ?e = "\<lambda>(opt::nat) (batch::unit batch). (Fin (if opt \<le> 5 then real opt else 10 - real opt), Fin 10)"
  have u5: "updates ?u (\<lambda>step. ()) ?ds 0 0 5 = (5, 5)"
    and u10: "updates ?u (\<lambda>step. ()) ?ds 0 0 10 = (10, 10)"
    by (simp_all add: eval_nat_numeral)
  have acc5: "get_accuracy exact_lib ?e 5 [[]] = Fin (1 / 2)"
    and acc10: "get_accuracy exact_lib ?e 10 [[]] = Fin 0"
    by (simp_all add: get_accuracy_def exact_lib_def)
  have "fge (get_accuracy exact_lib ?e 5 [[]]) (Fin (- 1))"
    and "flt (get_accuracy exact_lib ?e 10 [[]]) (get_accuracy exact_lib ?e 5 [[]])"
    by (simp_all add: acc5 acc10 fge_def flt_def fgt_def)
  from finetune_early_stopping[OF _ u5 u10 this, of "[[]]"] show ?thesis
    by (simp add: acc5 acc10)
qed

text \<open>
  The loop does not end at or before step 7: accuracy is evaluated, and early stopping
  checked, on every fifth step only. With a validation accuracy that peaks at step 5
  and decreases afterwards, the loop ends in a state that has gone through all ten
  updates and records an evaluation at step 10.
\<close>

theorem finetune_early_stopping_counterexample:
  "finetune_run exact_lib (\<lambda>opt lr batch rng. (opt + 1, rng + 1)) (0::nat) (\<lambda>step. ())
      ([[], [], [], [], [], [], [], [], [], []] :: unit dataset) (0::nat) 10 [[]] [[]]
      (\<lambda>opt batch. (Fin (if opt \<le> 5 then real opt else 10 - real opt), Fin 10)) 2
   = \<lparr>st_opt_repl = 10, st_rngs_loop = 10, st_best_opt_accuracy = Fin (1 / 2), st_best_step = 5,
      st_best_opt_repl = Some 5,
      st_train_accuracies = [(5, Fin (1 / 2)), (10, Fin 0)],
      st_val_accuracies = [(5, Fin (1 / 2)), (10, Fin 0)]\<rparr>"
  by (simp add: finetune_run_def upto_1_10 upto_0_9 get_accuracy_def exact_lib_def
        fge_def Let_def)

text \<open>
  Claim C10 (no snapshot). When \<open>total_steps < 5\<close>, and more generally whenever no
  validation accuracy evaluated during the run is at least the initial best accuracy
  \<open>-1\<close> (so that no evaluation step records a best), \<^verbatim>\<open>finetune\<close> returns nothing:
  it fails with UnboundLocalError on \<^verbatim>\<open>best_opt_repl\<close>.
\<close>

theorem finetune_unbound:
  "(total_steps < 5 \<longrightarrow>
      finetune L update_fn opt_repl lr_fn ds rngs_loop total_steps train_eval_ds val_ds
        evaluation_fn early_stopping_patience = Inl UnboundLocalError)
   \<and> ((\<forall>(step, acc)\<in>set (st_val_accuracies
            (finetune_run L update_fn opt_repl lr_fn ds rngs_loop total_steps train_eval_ds val_ds
               evaluation_fn early_stopping_patience)). \<not> fge acc (Fin (- 1))) \<longrightarrow>
      finetune L update_fn opt_repl lr_fn ds rngs_loop total_steps train_eval_ds val_ds
        evaluation_fn early_stopping_patience = Inl UnboundLocalError)"
proof (intro conjI impI)
  assume lt: "total_steps < 5"
  let ?steps = "zip [1..total_steps] (zip ds (map lr_fn [0..total_steps - 1]))"
  have ne: "\<forall>step\<in>set ?steps. fst step mod 5 \<noteq> 0"
  proof
    fix step assume "step \<in> set ?steps"
    then have "(fst step, snd step) \<in> set ?steps" by simp
    then have "fst step \<in> set [1..total_steps]"
      by (rule set_zip_leftD)
    with lt have "1 \<le> fst step" "fst step < 5" by auto
    then show "fst step mod 5 \<noteq> 0" by simp
  qed
  have "st_best_opt_repl (finetune_run L update_fn opt_repl lr_fn ds rngs_loop total_steps
          train_eval_ds val_ds evaluation_fn early_stopping_patience) = None"
    unfolding finetune_run_def by (subst finetune_loop_no_eval[OF ne]) simp
  then show "finetune L update_fn opt_repl lr_fn ds rngs_loop total_steps train_eval_ds val_ds
        evaluation_fn early_stopping_patience = Inl UnboundLocalError"
    by (simp add: finetune_def)
next
  let ?s = "finetune_run L update_fn opt_repl lr_fn ds rngs_loop total_steps train_eval_ds val_ds
               evaluation_fn early_stopping_patience"
  assume none: "\<forall>(step, acc)\<in>set (st_val_accuracies ?s). \<not> fge acc (Fin (- 1))"
  have "ft_inv ?s"
    unfolding finetune_run_def
    by (rule finetune_loop_inv) (simp add: ft_inv_def fge_def)
  with none have "st_best_opt_repl ?s = None"
    unfolding ft_inv_def by blast
  then show "finetune L update_fn opt_repl lr_fn ds rngs_loop total_steps train_eval_ds val_ds
        evaluation_fn early_stopping_patience = Inl UnboundLocalError"
    by (simp add: finetune_def)
qed

theorem finetune_unbound_witness:
  "((3::int) < 5 \<and>
      finetune exact_lib (\<lambda>opt lr batch rng. (opt + 1, rng + 1)) (0::nat) (\<lambda>step. ())
        ([[], [], []] :: unit dataset) (0::nat) 3 [[]] [[]] (\<lambda>opt batch. (Fin 1, Fin 1)) 2
        = Inl UnboundLocalError)
   \<and> (st_val_accuracies
         (finetune_run exact_lib (\<lambda>opt lr batch rng. (opt + 1, rng + 1)) (0::nat) (\<lambda>step. ())
            ([[], [], [], [], []] :: unit dataset) (0::nat) 5 [[]] []
            (\<lambda>opt batch. (Fin 1, Fin 1)) 2) = [(5, NaN)]
      \<and> \<not> fge NaN (Fin (- 1)) \<and>
      finetune exact_lib (\<lambda>opt lr batch rng. (opt + 1, rng + 1)) (0::nat) (\<lambda>step. ())
        ([[], [], [], [], []] :: unit dataset) (0::nat) 5 [[]] [] (\<lambda>opt batch. (Fin 1, Fin 1)) 2
        = Inl UnboundLocalError)"
  using finetune_unbound[of 3 exact_lib "\<lambda>opt lr batch rng. (opt + 1, rng + 1)" "0::nat" "\<lambda>step. ()"
          "[[], [], []] :: unit dataset" "0::nat" "[[]]" "[[]]" "\<lambda>opt batch. (Fin 1, Fin 1)" 2]
        finetune_unbound[of 5 exact_lib "\<lambda>opt lr batch rng. (opt + 1, rng + 1)" "0::nat" "\<lambda>step. ()"
          "[[], [], [], [], []] :: unit dataset" "0::nat" "[[]]" "[]" "\<lambda>opt batch. (Fin 1, Fin 1)" 2]
        finetune_run_nan_example
  by (simp add: fge_def)

section \<open>Proofs: the controller\<close>

lemma score_pool_unknown:
  "m \<notin> set acquisition_method_enum_values \<Longrightarrow> score_pool E m n S opt outs masks rng = Inl ValueError"
  by (auto simp: score_pool_def acquisition_method_enum_values_def)

lemma get_ids_logits_masks_Inr:
  "ds \<noteq> [] \<Longrightarrow> get_ids_logits_masks fwd opt ds pre =
     Inr (concat (map (map ex_id) ds),
          concat (map (map (\<lambda>e. fwd opt pre (ex_image e))) ds),
          concat (map (map ex_labels) ds),
          concat (map (map ex_mask) ds))"
  by (simp add: get_ids_logits_masks_def)


lemma example_accuracy: "get_accuracy exact_lib (\<lambda>opt batch. (Fin 1, Fin 2)) opt [[]] = Fin (1 / 2)"
  by (simp add: get_accuracy_def exact_lib_def)

lemma example_env_fields:
  "env_lib (example_env pool) = exact_lib"
  "env_sel (example_env pool) = argsort_partition"
  "env_split (example_env pool) key = (2 * key + 1, 2 * key + 2)"
  "env_rng (example_env pool) = 0"
  "env_update_fn (example_env pool) opt lr batch rng = (opt + 1, rng + 1)"
  "env_evaluation_fn (example_env pool) = (\<lambda>opt batch. (Fin 1, Fin 2))"
  "env_opt_cpu (example_env pool) = 0"
  "env_lr_base (example_env pool) = ()"
  "env_val_ds (example_env pool) = [[]]"
  "env_test_ds (example_env pool) = [[]]"
  "env_pool_train_ds (example_env pool) = pool"
  "env_repeated_train_ds (example_env pool) ids = [[], [], [], [], []]"
  "env_train_eval_ds (example_env pool) ids = [[]]"
  "env_feature_train_ds (example_env pool) ids = [[]]"
  by (simp_all add: example_env_def)














lemma acquisition_sizes_append [simp]:
  "acquisition_sizes (xs @ ys) = acquisition_sizes xs @ acquisition_sizes ys"
  by (simp add: acquisition_sizes_def)

lemma acquisition_sizes_simps [simp]:
  "acquisition_sizes [] = []"
  "acquisition_sizes (LogAcquisition n b # lg) = n # acquisition_sizes lg"
  "acquisition_sizes (LogTestAccuracy n a # lg) = acquisition_sizes lg"
  "acquisition_sizes (LogFinetune n i # lg) = acquisition_sizes lg"
  "acquisition_sizes (LogInitialIds ids # lg) = acquisition_sizes lg"
  by (simp_all add: acquisition_sizes_def)















subsection \<open>Claims about the controller\<close>

text \<open>
  Claim C7 (unknown acquisition method). Through the command line an acquisition
  method outside the four names is rejected by the flag library before \<^verbatim>\<open>main\<close>
  starts. \<^verbatim>\<open>main\<close> itself checks the name only in the dispatch of a round: with such a
  name no round completes; a round whose fine-tuning stage succeeds on a non-empty pool
  fails with ValueError after the fine-tuning and the evaluation on the test set,
  whose accuracy is already reported; and a run whose training set has reached the
  maximal size starts no round and raises nothing.
\<close>

theorem unknown_acquisition_method:
  assumes "cfg_acquisition_method C \<notin> set acquisition_method_enum_values"
  shows "cli_main fuel device_count E C = (Some (Inl IllegalFlagValueError), [])
       \<and> (\<forall>st'. al_round E C st \<noteq> Inr st')
       \<and> (\<forall>opt rngs lg. finetune_stage E C st = Inr (opt, rngs, lg) \<longrightarrow> env_pool_train_ds E \<noteq> [] \<longrightarrow>
             al_round E C st =
               Inl (ValueError,
                    lg @ [LogTestAccuracy (int (card (subset_ids st)))
                            (get_accuracy (env_lib E) (env_evaluation_fn E) opt (env_test_ds E))]))
       \<and> (cfg_max_training_set_size C \<le> int (card (subset_ids st)) \<longrightarrow>
             al_loop (Suc fuel) E C st = (Some (Inr (subset_ids st, test_accuracies st)), al_log st))"
proof (intro conjI allI impI)
  show "cli_main fuel device_count E C = (Some (Inl IllegalFlagValueError), [])"
    using assms by (simp add: cli_main_def)
next
  fix st'
  show "al_round E C st \<noteq> Inr st'"
    by (auto simp: al_round_def Let_def score_pool_unknown[OF assms] split: sum.splits prod.splits)
next
  fix opt rngs lg
  assume "finetune_stage E C st = Inr (opt, rngs, lg)" "env_pool_train_ds E \<noteq> []"
  then show "al_round E C st =
               Inl (ValueError,
                    lg @ [LogTestAccuracy (int (card (subset_ids st)))
                            (get_accuracy (env_lib E) (env_evaluation_fn E) opt (env_test_ds E))])"
    by (simp add: al_round_def Let_def get_ids_logits_masks_Inr score_pool_unknown[OF assms])
next
  assume "cfg_max_training_set_size C \<le> int (card (subset_ids st))"
  then show "al_loop (Suc fuel) E C st = (Some (Inr (subset_ids st, test_accuracies st)), al_log st)"
    by simp
qed


theorem unknown_acquisition_method_witness:
  "cli_main 1 8 (example_env example_pool)
      \<lparr>cfg_acquisition_method = ''foo'', cfg_acquisition_batch_size = 5,
       cfg_max_training_set_size = 20, cfg_initial_training_set_size = 0,
       cfg_early_stopping_patience = 2, cfg_total_steps = 5\<rparr>
     = (Some (Inl IllegalFlagValueError), [])
   \<and> ''foo'' \<notin> set acquisition_method_enum_values
   \<and> finetune_stage (example_env example_pool)
        \<lparr>cfg_acquisition_method = ''foo'', cfg_acquisition_batch_size = 5,
         cfg_max_training_set_size = 20, cfg_initial_training_set_size = 0,
         cfg_early_stopping_patience = 2, cfg_total_steps = 5\<rparr>
        \<lparr>subset_ids = {}, al_rng = 3, al_rngs_loop = 2, test_accuracies = [],
         training_sizes = [], al_log = [LogInitialIds []]\<rparr>
       = Inr (0, 2, [LogInitialIds []])
   \<and> al_round (example_env example_pool)
        \<lparr>cfg_acquisition_method = ''foo'', cfg_acquisition_batch_size = 5,
         cfg_max_training_set_size = 20, cfg_initial_training_set_size = 0,
         cfg_early_stopping_patience = 2, cfg_total_steps = 5\<rparr>
        \<lparr>subset_ids = {}, al_rng = 3, al_rngs_loop = 2, test_accuracies = [],
         training_sizes = [], al_log = [LogInitialIds []]\<rparr>
       = Inl (ValueError, [LogInitialIds [], LogTestAccuracy 0 (Fin (1 / 2))])"
proof -
  let ?E = "example_env example_pool"
  let ?C = "\<lparr>cfg_acquisition_method = ''foo'', cfg_acquisition_batch_size = 5,
       cfg_max_training_set_size = 20, cfg_initial_training_set_size = 0,
       cfg_early_stopping_patience = 2, cfg_total_steps = 5\<rparr>"
  let ?st = "\<lparr>subset_ids = {}, al_rng = 3, al_rngs_loop = 2, test_accuracies = [],
         training_sizes = [], al_log = [LogInitialIds []]\<rparr> :: int al_state"
  have m: "cfg_acquisition_method ?C \<notin> set acquisition_method_enum_values"
    by (simp add: acquisition_method_enum_values_def)
  have fs: "finetune_stage ?E ?C ?st = Inr (0, 2, [LogInitialIds []])"
    by (simp add: finetune_stage_def example_env_fields)
  have ne: "env_pool_train_ds ?E \<noteq> []"
    by (simp add: example_env_fields example_pool_def)
  from unknown_acquisition_method[OF m, of 1 8 ?E ?st] fs ne m show ?thesis
    by (simp add: example_env_fields example_accuracy)
qed

text \<open>
  Called with an unknown method, \<^verbatim>\<open>main\<close> does not fail before the first round: the
  test accuracy of round 0 is reported before the ValueError.
\<close>

theorem unknown_acquisition_method_counterexample:
  "main 1 (example_env example_pool)
     \<lparr>cfg_acquisition_method = ''foo'', cfg_acquisition_batch_size = 5,
      cfg_max_training_set_size = 20, cfg_initial_training_set_size = 0,
      cfg_early_stopping_patience = 2, cfg_total_steps = 5\<rparr>
   = (Some (Inl ValueError), [LogInitialIds [], LogTestAccuracy 0 (Fin (1 / 2))])"
  by (simp add: main_def initial_training_set_def example_env_def example_pool_def al_round_def
       finetune_stage_def score_pool_def get_ids_logits_masks_def example_accuracy Let_def)










end
